theory Spec2Isabelle
  imports Main
begin

section \<open>The device as the pipeline sees it\<close>

text \<open>
  \<open>Pipeline.cpp\<close> talks to the GPU only through Vulkan entry points. The model keeps the
  device as an explicit value that every call takes and returns: a counter for fresh object
  identities, the status of fences, semaphores and command recorders, and the log of the
  calls made, in order. A handle is a number and \<open>0\<close> is \<open>VK_NULL_HANDLE\<close>.
\<close>

type_synonym handle = nat

abbreviation VK_NULL_HANDLE :: handle where
  "VK_NULL_HANDLE \<equiv> 0"

datatype VkResult =
    VK_SUCCESS
  | VK_NOT_READY
  | VK_TIMEOUT
  | VK_SUBOPTIMAL_KHR
  | VK_ERROR_OUT_OF_HOST_MEMORY
  | VK_ERROR_OUT_OF_DEVICE_MEMORY
  | VK_ERROR_DEVICE_LOST
  | VK_ERROR_SURFACE_LOST_KHR
  | VK_ERROR_OUT_OF_DATE_KHR

datatype object_kind =
    DescriptorSetLayout
  | RenderPass
  | ShaderModule
  | PipelineLayout
  | GraphicsPipeline
  | Framebuffer
  | CommandPool
  | CommandBuffer
  | Buffer
  | DeviceMemory
  | DescriptorPool
  | DescriptorSet
  | Semaphore
  | Fence

text \<open>
  One entry of the call log. \<open>Create k r h\<close> stands for the \<open>vkCreate*\<close>/\<open>vkAllocate*\<close>
  call of kind \<open>k\<close> that returned \<open>r\<close> and, on success, wrote the handle \<open>h\<close>;
  \<open>Destroy k h\<close> for the matching \<open>vkDestroy*\<close>/\<open>vkFree*\<close>. \<open>HostWriteUniform p\<close> is the
  \<open>memcpy\<close> of \<open>updateUniformBuffer\<close> into the mapped block at \<open>p\<close>.
\<close>

datatype vk_call =
    DeviceWaitIdle
  | Create object_kind VkResult handle
  | Destroy object_kind handle
  | GetBufferMemoryRequirements handle
  | BindBufferMemory handle handle
  | MapMemory handle VkResult
  | UnmapMemory handle
  | AllocateDescriptorSets VkResult "handle list"
  | UpdateDescriptorSets handle handle
  | WaitForFences handle
  | ResetFences handle
  | AcquireNextImage handle VkResult
  | ResetCommandBuffer handle
  | BeginCommandBuffer handle VkResult
  | CmdBeginRenderPass handle handle
  | CmdBindPipeline handle handle
  | CmdBindDescriptorSets handle handle
  | CmdEndRenderPass handle
  | EndCommandBuffer handle VkResult
  | QueueSubmit handle handle handle handle VkResult
  | QueuePresent handle nat VkResult
  | HostWriteUniform handle

datatype fence_status = Unsignaled | Pending | Signaled

datatype recorder_status = Initial | Recording | Executable

record Gpu =
  nextHandle :: nat
  fenceStatus :: "handle \<Rightarrow> fence_status"
  semaphoreSignaled :: "handle \<Rightarrow> bool"
  recorder :: "handle \<Rightarrow> recorder_status"
  calls :: "vk_call list"

text \<open>
  What the driver and the presentation surface answer is an input. Each call site of
  \<open>Pipeline.cpp\<close> that reads a \<open>VkResult\<close> has a name; loops index theirs by the slot.
\<close>

datatype vk_site =
    AtDescriptorSetLayout
  | AtRenderPass
  | AtVertShaderModule
  | AtFragShaderModule
  | AtPipelineLayout
  | AtGraphicsPipeline
  | AtFramebuffer nat
  | AtCommandPool nat
  | AtCommandBuffer nat
  | AtUniformBuffer nat
  | AtUniformMemory nat
  | AtMapMemory nat
  | AtDescriptorPool
  | AtDescriptorSets
  | AtImageAvailableSemaphore nat
  | AtRenderFinishedSemaphore nat
  | AtInFlightFence nat
  | AtAcquireNextImage
  | AtBeginCommandBuffer
  | AtEndCommandBuffer
  | AtQueueSubmit
  | AtQueuePresent

record Env =
  vkResult :: "vk_site \<Rightarrow> VkResult"
  swapChainImages :: "handle list"
  acquiredImageIndex :: nat
  shaderFileOpens :: "string \<Rightarrow> bool"

definition logCall :: "vk_call \<Rightarrow> Gpu \<Rightarrow> Gpu" where
  "logCall c g = g\<lparr>calls := calls g @ [c]\<rparr>"

text \<open>
  A creation call. On \<open>VK_SUCCESS\<close> the driver hands out an identity never used before
  (so never \<open>VK_NULL_HANDLE\<close>); on any other result no object exists and the caller's
  output variable is left as it was.
\<close>

definition vkCreate :: "Env \<Rightarrow> vk_site \<Rightarrow> object_kind \<Rightarrow> Gpu \<Rightarrow> VkResult \<times> handle \<times> Gpu" where
  "vkCreate env site kind g =
     (let r = vkResult env site in
      if r = VK_SUCCESS
      then (r, Suc (nextHandle g),
            logCall (Create kind r (Suc (nextHandle g))) (g\<lparr>nextHandle := Suc (nextHandle g)\<rparr>))
      else (r, VK_NULL_HANDLE, logCall (Create kind r VK_NULL_HANDLE) g))"

definition vkDestroy :: "object_kind \<Rightarrow> handle \<Rightarrow> Gpu \<Rightarrow> Gpu" where
  "vkDestroy kind h g = logCall (Destroy kind h) g"

text \<open>\<open>vkCreateFence\<close> with \<open>VK_FENCE_CREATE_SIGNALED_BIT\<close> set or clear in the flags.\<close>

definition vkCreateFence :: "Env \<Rightarrow> vk_site \<Rightarrow> bool \<Rightarrow> Gpu \<Rightarrow> VkResult \<times> handle \<times> Gpu" where
  "vkCreateFence env site signaledBit g =
     (case vkCreate env site Fence g of
        (r, h, g') \<Rightarrow>
          if r = VK_SUCCESS
          then (r, h, g'\<lparr>fenceStatus := (fenceStatus g')(h := (if signaledBit then Signaled else Unsignaled))\<rparr>)
          else (r, h, g'))"

definition vkCreateSemaphore :: "Env \<Rightarrow> vk_site \<Rightarrow> Gpu \<Rightarrow> VkResult \<times> handle \<times> Gpu" where
  "vkCreateSemaphore env site g =
     (case vkCreate env site Semaphore g of
        (r, h, g') \<Rightarrow>
          if r = VK_SUCCESS
          then (r, h, g'\<lparr>semaphoreSignaled := (semaphoreSignaled g')(h := False)\<rparr>)
          else (r, h, g'))"

definition vkAllocateCommandBuffers :: "Env \<Rightarrow> vk_site \<Rightarrow> Gpu \<Rightarrow> VkResult \<times> handle \<times> Gpu" where
  "vkAllocateCommandBuffers env site g =
     (case vkCreate env site CommandBuffer g of
        (r, h, g') \<Rightarrow>
          if r = VK_SUCCESS
          then (r, h, g'\<lparr>recorder := (recorder g')(h := Initial)\<rparr>)
          else (r, h, g'))"

text \<open>
  \<open>vkDeviceWaitIdle\<close> returns once the device has finished all submitted work: every
  fence of a pending submission is signaled by then.
\<close>

definition vkDeviceWaitIdle :: "Gpu \<Rightarrow> Gpu" where
  "vkDeviceWaitIdle g =
     logCall DeviceWaitIdle
       (g\<lparr>fenceStatus := (\<lambda>h. if fenceStatus g h = Pending then Signaled else fenceStatus g h)\<rparr>)"

text \<open>
  \<open>vkWaitForFences\<close> with timeout \<open>UINT64_MAX\<close>: returns at once on a signaled fence,
  returns after the device has signaled it on a fence of a pending submission, and never
  returns (\<open>None\<close>) on an unsignaled fence that no submission will signal.
\<close>

definition vkWaitForFences :: "handle \<Rightarrow> Gpu \<Rightarrow> Gpu option" where
  "vkWaitForFences f g =
     (case fenceStatus g f of
        Unsignaled \<Rightarrow> None
      | Pending \<Rightarrow> Some (logCall (WaitForFences f) (g\<lparr>fenceStatus := (fenceStatus g)(f := Signaled)\<rparr>))
      | Signaled \<Rightarrow> Some (logCall (WaitForFences f) g))"

definition vkResetFences :: "handle \<Rightarrow> Gpu \<Rightarrow> Gpu" where
  "vkResetFences f g = logCall (ResetFences f) (g\<lparr>fenceStatus := (fenceStatus g)(f := Unsignaled)\<rparr>)"

definition vkResetCommandBuffer :: "handle \<Rightarrow> Gpu \<Rightarrow> Gpu" where
  "vkResetCommandBuffer cb g = logCall (ResetCommandBuffer cb) (g\<lparr>recorder := (recorder g)(cb := Initial)\<rparr>)"

section \<open>The pipeline object\<close>

text \<open>
  \<open>Pipeline.h\<close> is not among the sources. Of \<open>enum class State\<close> the values that
  \<open>Pipeline.cpp\<close> names are modelled; \<open>MAX_FRAMES_IN_FLIGHT\<close>, a constant of that header, is
  the argument \<open>N\<close> of every function that reads it.
\<close>

datatype State = UNINITIALIZED | READY | RECREATING

text \<open>
  The members of \<open>class Pipeline\<close> that \<open>Pipeline.cpp\<close> reads or writes, and the device.
  \<open>vkContext\<close> is the \<open>VulkanContext*\<close>: \<open>None\<close> is \<open>nullptr\<close>, \<open>Some d\<close> a context whose
  \<open>getDevice()\<close> is \<open>d\<close>. A \<open>std::vector\<close> is a list.
\<close>

record Pipeline =
  vkContext :: "handle option"
  pipelineLayout :: handle
  graphicsPipeline :: handle
  renderPass :: handle
  descriptorSetLayout :: handle
  descriptorPool :: handle
  vertexBuffer :: handle
  vertexBufferMemory :: handle
  framebuffers :: "handle list"
  commandPools :: "handle list"
  commandBuffers :: "handle list"
  uniformBuffers :: "handle list"
  uniformBuffersMemory :: "handle list"
  uniformBuffersMapped :: "handle list"
  descriptorSets :: "handle list"
  imageAvailableSemaphores :: "handle list"
  renderFinishedSemaphores :: "handle list"
  inFlightFences :: "handle list"
  currentFrame :: nat
  currentImageIndex :: nat
  state :: State
  lastError :: string
  gpu :: Gpu

text \<open>
  Modelled from the spec: \<open>setError\<close> is declared in \<open>Pipeline.h\<close>, which is not among the
  sources; the spec says a failure leaves a retrievable last-error message.
\<close>

definition setError :: "string \<Rightarrow> Pipeline \<Rightarrow> Pipeline" where
  "setError msg s = s\<lparr>lastError := msg\<rparr>"

text \<open>
  Modelled from the spec: the constructor's initialiser list names \<open>pipelineLayout\<close>,
  \<open>graphicsPipeline\<close>, \<open>renderPass\<close>, \<open>currentFrame\<close>, \<open>currentImageIndex\<close> and \<open>state\<close>;
  the default member initialisers of \<open>descriptorSetLayout\<close>, \<open>descriptorPool\<close>,
  \<open>vertexBuffer\<close> and \<open>vertexBufferMemory\<close> are in the missing \<open>Pipeline.h\<close>. The spec has
  \<open>cleanup\<close> safe when nothing was created, which needs them null.
\<close>

definition Pipeline_ctor :: "handle option \<Rightarrow> Gpu \<Rightarrow> Pipeline" where
  "Pipeline_ctor c g =
     \<lparr> vkContext = c,
       pipelineLayout = VK_NULL_HANDLE,
       graphicsPipeline = VK_NULL_HANDLE,
       renderPass = VK_NULL_HANDLE,
       descriptorSetLayout = VK_NULL_HANDLE,
       descriptorPool = VK_NULL_HANDLE,
       vertexBuffer = VK_NULL_HANDLE,
       vertexBufferMemory = VK_NULL_HANDLE,
       framebuffers = [],
       commandPools = [],
       commandBuffers = [],
       uniformBuffers = [],
       uniformBuffersMemory = [],
       uniformBuffersMapped = [],
       descriptorSets = [],
       imageAvailableSemaphores = [],
       renderFinishedSemaphores = [],
       inFlightFences = [],
       currentFrame = 0,
       currentImageIndex = 0,
       state = UNINITIALIZED,
       lastError = [],
       gpu = g \<rparr>"

subsection \<open>Control flow of the source\<close>

text \<open>\<open>std::vector::resize\<close> on a vector of handles: new elements are value-initialised.\<close>

definition resize :: "nat \<Rightarrow> handle list \<Rightarrow> handle list" where
  "resize n xs = take n xs @ replicate (n - length xs) VK_NULL_HANDLE"

text \<open>\<open>for (i = ...; i < n; i++) { if (!body) return false; } return true;\<close>\<close>

function for_loop :: "nat \<Rightarrow> nat \<Rightarrow> (nat \<Rightarrow> 's \<Rightarrow> bool \<times> 's) \<Rightarrow> 's \<Rightarrow> bool \<times> 's" where
  "for_loop i n body s =
     (if i < n
      then (case body i s of (ok, s') \<Rightarrow> if ok then for_loop (Suc i) n body s' else (False, s'))
      else (True, s))"
  by pat_completeness auto
termination
  by (relation "measure (\<lambda>(i, n, body, s). n - i)") auto

declare for_loop.simps [simp del]

text \<open>A loop whose body cannot leave it: \<open>for (i = 0; i < n; i++) body;\<close>\<close>

definition for_each :: "nat \<Rightarrow> (nat \<Rightarrow> 's \<Rightarrow> 's) \<Rightarrow> 's \<Rightarrow> 's" where
  "for_each n body s = fold body [0..<n] s"

text \<open>The chain \<open>!a() || !b() || ...\<close>: the steps run in order and the first failure ends it.\<close>

fun run_steps :: "('s \<Rightarrow> bool \<times> 's) list \<Rightarrow> 's \<Rightarrow> bool \<times> 's" where
  "run_steps [] s = (True, s)"
| "run_steps (f # fs) s = (case f s of (ok, s') \<Rightarrow> if ok then run_steps fs s' else (False, s'))"

subsection \<open>Build steps\<close>

definition createDescriptorSetLayout :: "Env \<Rightarrow> Pipeline \<Rightarrow> bool \<times> Pipeline" where
  "createDescriptorSetLayout env s =
     (case vkCreate env AtDescriptorSetLayout DescriptorSetLayout (gpu s) of
        (r, h, g) \<Rightarrow>
          if r \<noteq> VK_SUCCESS
          then (False, setError ''Failed to create descriptor set layout'' (s\<lparr>gpu := g\<rparr>))
          else (True, s\<lparr>gpu := g, descriptorSetLayout := h\<rparr>))"

definition createRenderPass :: "Env \<Rightarrow> Pipeline \<Rightarrow> bool \<times> Pipeline" where
  "createRenderPass env s =
     (case vkCreate env AtRenderPass RenderPass (gpu s) of
        (r, h, g) \<Rightarrow>
          if r \<noteq> VK_SUCCESS
          then (False, setError ''Failed to create render pass'' (s\<lparr>gpu := g\<rparr>))
          else (True, s\<lparr>gpu := g, renderPass := h\<rparr>))"

text \<open>\<open>readFile\<close>: only whether the file opens matters here; a missing file sets the error.\<close>

definition readFile :: "Env \<Rightarrow> string \<Rightarrow> Pipeline \<Rightarrow> Pipeline" where
  "readFile env filename s =
     (if \<not> shaderFileOpens env filename
      then setError (''Failed to open file: '' @ filename) s
      else s)"

definition createShaderModule :: "Env \<Rightarrow> vk_site \<Rightarrow> Pipeline \<Rightarrow> handle \<times> Pipeline" where
  "createShaderModule env site s =
     (case vkCreate env site ShaderModule (gpu s) of
        (r, h, g) \<Rightarrow>
          if r \<noteq> VK_SUCCESS then (VK_NULL_HANDLE, s\<lparr>gpu := g\<rparr>) else (h, s\<lparr>gpu := g\<rparr>))"

definition createGraphicsPipeline :: "Env \<Rightarrow> Pipeline \<Rightarrow> bool \<times> Pipeline" where
  "createGraphicsPipeline env s0 =
     (let s1 = readFile env ''shaders/basic.vert.spv'' s0;
          s2 = readFile env ''shaders/basic.frag.spv'' s1
      in case createShaderModule env AtVertShaderModule s2 of
        (vertShaderModule, s3) \<Rightarrow>
      case createShaderModule env AtFragShaderModule s3 of
        (fragShaderModule, s4) \<Rightarrow>
      if vertShaderModule = VK_NULL_HANDLE \<or> fragShaderModule = VK_NULL_HANDLE
      then (False, setError ''Failed to create shader modules'' s4)
      else case vkCreate env AtPipelineLayout PipelineLayout (gpu s4) of
        (r, h, g) \<Rightarrow>
      if r \<noteq> VK_SUCCESS
      then (False, setError ''Failed to create pipeline layout'' (s4\<lparr>gpu := g\<rparr>))
      else let s5 = s4\<lparr>gpu := g, pipelineLayout := h\<rparr>
      in case vkCreate env AtGraphicsPipeline GraphicsPipeline (gpu s5) of
        (r', h', g') \<Rightarrow>
      if r' \<noteq> VK_SUCCESS
      then (False,
            (setError ''Failed to create graphics pipeline'' (s5\<lparr>gpu := g'\<rparr>))
              \<lparr>gpu := vkDestroy ShaderModule vertShaderModule (vkDestroy ShaderModule fragShaderModule g')\<rparr>)
      else (True,
            s5\<lparr>gpu := vkDestroy ShaderModule vertShaderModule (vkDestroy ShaderModule fragShaderModule g'),
               graphicsPipeline := h'\<rparr>))"

definition createFramebuffers_body :: "Env \<Rightarrow> nat \<Rightarrow> Pipeline \<Rightarrow> bool \<times> Pipeline" where
  "createFramebuffers_body env i s =
     (case vkCreate env (AtFramebuffer i) Framebuffer (gpu s) of
        (r, h, g) \<Rightarrow>
          if r \<noteq> VK_SUCCESS
          then (False, setError ''Failed to create framebuffer'' (s\<lparr>gpu := g\<rparr>))
          else (True, s\<lparr>gpu := g, framebuffers := (framebuffers s)[i := h]\<rparr>))"

definition createFramebuffers :: "Env \<Rightarrow> Pipeline \<Rightarrow> bool \<times> Pipeline" where
  "createFramebuffers env s =
     for_loop 0 (length (swapChainImages env)) (createFramebuffers_body env)
       (s\<lparr>framebuffers := resize (length (swapChainImages env)) (framebuffers s)\<rparr>)"

definition createCommandPools_body :: "Env \<Rightarrow> nat \<Rightarrow> Pipeline \<Rightarrow> bool \<times> Pipeline" where
  "createCommandPools_body env i s =
     (case vkCreate env (AtCommandPool i) CommandPool (gpu s) of
        (r, h, g) \<Rightarrow>
          if r \<noteq> VK_SUCCESS
          then (False, setError ''Failed to create command pool'' (s\<lparr>gpu := g\<rparr>))
          else (True, s\<lparr>gpu := g, commandPools := (commandPools s)[i := h]\<rparr>))"

definition createCommandPools :: "nat \<Rightarrow> Env \<Rightarrow> Pipeline \<Rightarrow> bool \<times> Pipeline" where
  "createCommandPools N env s =
     for_loop 0 N (createCommandPools_body env) (s\<lparr>commandPools := resize N (commandPools s)\<rparr>)"

definition createCommandBuffers_body :: "Env \<Rightarrow> nat \<Rightarrow> Pipeline \<Rightarrow> bool \<times> Pipeline" where
  "createCommandBuffers_body env i s =
     (case vkAllocateCommandBuffers env (AtCommandBuffer i) (gpu s) of
        (r, h, g) \<Rightarrow>
          if r \<noteq> VK_SUCCESS
          then (False, setError ''Failed to allocate command buffers'' (s\<lparr>gpu := g\<rparr>))
          else (True, s\<lparr>gpu := g, commandBuffers := (commandBuffers s)[i := h]\<rparr>))"

definition createCommandBuffers :: "nat \<Rightarrow> Env \<Rightarrow> Pipeline \<Rightarrow> bool \<times> Pipeline" where
  "createCommandBuffers N env s =
     for_loop 0 N (createCommandBuffers_body env) (s\<lparr>commandBuffers := resize N (commandBuffers s)\<rparr>)"

text \<open>
  The result of \<open>vkMapMemory\<close> is not checked by the source; on success it writes the
  address of the mapping (never null), otherwise the pointer stays as \<open>resize\<close> left it.
\<close>

definition vkMapMemory :: "Env \<Rightarrow> vk_site \<Rightarrow> handle \<Rightarrow> Gpu \<Rightarrow> VkResult \<times> handle \<times> Gpu" where
  "vkMapMemory env site mem g =
     (let r = vkResult env site in
      if r = VK_SUCCESS
      then (r, Suc (nextHandle g), logCall (MapMemory mem r) (g\<lparr>nextHandle := Suc (nextHandle g)\<rparr>))
      else (r, VK_NULL_HANDLE, logCall (MapMemory mem r) g))"

definition createUniformBuffers_body :: "Env \<Rightarrow> nat \<Rightarrow> Pipeline \<Rightarrow> bool \<times> Pipeline" where
  "createUniformBuffers_body env i s =
     (case vkCreate env (AtUniformBuffer i) Buffer (gpu s) of
        (r, h, g) \<Rightarrow>
      if r \<noteq> VK_SUCCESS
      then (False, setError ''Failed to create uniform buffer'' (s\<lparr>gpu := g\<rparr>))
      else let s1 = s\<lparr>gpu := logCall (GetBufferMemoryRequirements h) g,
                       uniformBuffers := (uniformBuffers s)[i := h]\<rparr>
      in case vkCreate env (AtUniformMemory i) DeviceMemory (gpu s1) of
        (r', m, g') \<Rightarrow>
      if r' \<noteq> VK_SUCCESS
      then (False, setError ''Failed to allocate uniform buffer memory'' (s1\<lparr>gpu := g'\<rparr>))
      else let s2 = s1\<lparr>gpu := logCall (BindBufferMemory h m) g',
                        uniformBuffersMemory := (uniformBuffersMemory s1)[i := m]\<rparr>
      in case vkMapMemory env (AtMapMemory i) m (gpu s2) of
        (r'', p, g'') \<Rightarrow>
      if r'' = VK_SUCCESS
      then (True, s2\<lparr>gpu := g'', uniformBuffersMapped := (uniformBuffersMapped s2)[i := p]\<rparr>)
      else (True, s2\<lparr>gpu := g''\<rparr>))"

definition createUniformBuffers :: "nat \<Rightarrow> Env \<Rightarrow> Pipeline \<Rightarrow> bool \<times> Pipeline" where
  "createUniformBuffers N env s =
     for_loop 0 N (createUniformBuffers_body env)
       (s\<lparr>uniformBuffers := resize N (uniformBuffers s),
          uniformBuffersMemory := resize N (uniformBuffersMemory s),
          uniformBuffersMapped := resize N (uniformBuffersMapped s)\<rparr>)"

definition createDescriptorPool :: "Env \<Rightarrow> Pipeline \<Rightarrow> bool \<times> Pipeline" where
  "createDescriptorPool env s =
     (case vkCreate env AtDescriptorPool DescriptorPool (gpu s) of
        (r, h, g) \<Rightarrow>
          if r \<noteq> VK_SUCCESS
          then (False, setError ''Failed to create descriptor pool'' (s\<lparr>gpu := g\<rparr>))
          else (True, s\<lparr>gpu := g, descriptorPool := h\<rparr>))"

text \<open>
  \<open>vkAllocateDescriptorSets\<close> for \<open>n\<close> sets in one call: on success \<open>n\<close> fresh handles are
  written to the front of the output array.
\<close>

definition vkAllocateDescriptorSets :: "Env \<Rightarrow> nat \<Rightarrow> Gpu \<Rightarrow> VkResult \<times> handle list \<times> Gpu" where
  "vkAllocateDescriptorSets env n g =
     (let r = vkResult env AtDescriptorSets in
      if r = VK_SUCCESS
      then (r, map (\<lambda>k. Suc (nextHandle g + k)) [0..<n],
            logCall (AllocateDescriptorSets r (map (\<lambda>k. Suc (nextHandle g + k)) [0..<n]))
              (g\<lparr>nextHandle := nextHandle g + n\<rparr>))
      else (r, [], logCall (AllocateDescriptorSets r []) g))"

definition createDescriptorSets_body :: "nat \<Rightarrow> Pipeline \<Rightarrow> Pipeline" where
  "createDescriptorSets_body i s =
     s\<lparr>gpu := logCall (UpdateDescriptorSets (descriptorSets s ! i) (uniformBuffers s ! i)) (gpu s)\<rparr>"

definition createDescriptorSets :: "nat \<Rightarrow> Env \<Rightarrow> Pipeline \<Rightarrow> bool \<times> Pipeline" where
  "createDescriptorSets N env s0 =
     (let s = s0\<lparr>descriptorSets := resize N (descriptorSets s0)\<rparr>
      in case vkAllocateDescriptorSets env N (gpu s) of
        (r, hs, g) \<Rightarrow>
          if r \<noteq> VK_SUCCESS
          then (False, setError ''Failed to allocate descriptor sets'' (s\<lparr>gpu := g\<rparr>))
          else (True, for_each N createDescriptorSets_body
                        (s\<lparr>gpu := g, descriptorSets := hs @ drop (length hs) (descriptorSets s)\<rparr>)))"

definition createSyncObjects_body :: "Env \<Rightarrow> nat \<Rightarrow> Pipeline \<Rightarrow> bool \<times> Pipeline" where
  "createSyncObjects_body env i s =
     (case vkCreateSemaphore env (AtImageAvailableSemaphore i) (gpu s) of
        (r, a, g) \<Rightarrow>
      if r \<noteq> VK_SUCCESS
      then (False, setError ''Failed to create synchronization objects'' (s\<lparr>gpu := g\<rparr>))
      else let s1 = s\<lparr>gpu := g, imageAvailableSemaphores := (imageAvailableSemaphores s)[i := a]\<rparr>
      in case vkCreateSemaphore env (AtRenderFinishedSemaphore i) (gpu s1) of
        (r', b, g') \<Rightarrow>
      if r' \<noteq> VK_SUCCESS
      then (False, setError ''Failed to create synchronization objects'' (s1\<lparr>gpu := g'\<rparr>))
      else let s2 = s1\<lparr>gpu := g', renderFinishedSemaphores := (renderFinishedSemaphores s1)[i := b]\<rparr>
      in case vkCreateFence env (AtInFlightFence i) True (gpu s2) of
        (r'', f, g'') \<Rightarrow>
      if r'' \<noteq> VK_SUCCESS
      then (False, setError ''Failed to create synchronization objects'' (s2\<lparr>gpu := g''\<rparr>))
      else (True, s2\<lparr>gpu := g'', inFlightFences := (inFlightFences s2)[i := f]\<rparr>))"

definition createSyncObjects :: "nat \<Rightarrow> Env \<Rightarrow> Pipeline \<Rightarrow> bool \<times> Pipeline" where
  "createSyncObjects N env s =
     for_loop 0 N (createSyncObjects_body env)
       (s\<lparr>imageAvailableSemaphores := resize N (imageAvailableSemaphores s),
          renderFinishedSemaphores := resize N (renderFinishedSemaphores s),
          inFlightFences := resize N (inFlightFences s)\<rparr>)"

definition createVertexBuffer :: "Pipeline \<Rightarrow> bool \<times> Pipeline" where
  "createVertexBuffer s = (True, s)"

subsection \<open>initialize\<close>

definition build_steps :: "nat \<Rightarrow> Env \<Rightarrow> (Pipeline \<Rightarrow> bool \<times> Pipeline) list" where
  "build_steps N env =
     [createDescriptorSetLayout env,
      createRenderPass env,
      createGraphicsPipeline env,
      createFramebuffers env,
      createCommandPools N env,
      createCommandBuffers N env,
      createUniformBuffers N env,
      createDescriptorPool env,
      createDescriptorSets N env,
      createSyncObjects N env,
      createVertexBuffer]"

definition initialize :: "nat \<Rightarrow> Env \<Rightarrow> Pipeline \<Rightarrow> bool \<times> Pipeline" where
  "initialize N env s =
     (if state s \<noteq> UNINITIALIZED
      then (False, setError ''Pipeline is already initialized'' s)
      else case run_steps (build_steps N env) s of
        (ok, s') \<Rightarrow> if \<not> ok then (False, s') else (True, s'\<lparr>state := READY\<rparr>))"

subsection \<open>cleanup\<close>

definition waitIdle :: "Pipeline \<Rightarrow> Pipeline" where
  "waitIdle s =
     (case vkContext s of
        None \<Rightarrow> s
      | Some device \<Rightarrow>
          if device \<noteq> VK_NULL_HANDLE then s\<lparr>gpu := vkDeviceWaitIdle (gpu s)\<rparr> else s)"

text \<open>
  The loops of \<open>cleanup\<close> that only read the members and call Vulkan run on the device;
  the pipeline they read is a parameter of the body.
\<close>

definition cleanup_uniformBuffers_body :: "Pipeline \<Rightarrow> nat \<Rightarrow> Gpu \<Rightarrow> Gpu" where
  "cleanup_uniformBuffers_body s i g0 =
     (let g1 = (if uniformBuffersMapped s ! i \<noteq> VK_NULL_HANDLE
                then logCall (UnmapMemory (uniformBuffersMemory s ! i)) g0 else g0);
          g2 = (if uniformBuffers s ! i \<noteq> VK_NULL_HANDLE
                then vkDestroy Buffer (uniformBuffers s ! i) g1 else g1)
      in if uniformBuffersMemory s ! i \<noteq> VK_NULL_HANDLE
         then vkDestroy DeviceMemory (uniformBuffersMemory s ! i) g2 else g2)"

definition cleanup_uniformBuffers :: "Pipeline \<Rightarrow> Pipeline" where
  "cleanup_uniformBuffers s =
     s\<lparr>gpu := for_each (length (uniformBuffers s)) (cleanup_uniformBuffers_body s) (gpu s),
       uniformBuffers := [],
       uniformBuffersMemory := [],
       uniformBuffersMapped := []\<rparr>"

definition cleanup_descriptorPool :: "Pipeline \<Rightarrow> Pipeline" where
  "cleanup_descriptorPool s =
     (if descriptorPool s \<noteq> VK_NULL_HANDLE
      then s\<lparr>gpu := vkDestroy DescriptorPool (descriptorPool s) (gpu s), descriptorPool := VK_NULL_HANDLE\<rparr>
      else s)"

definition cleanup_descriptorSetLayout :: "Pipeline \<Rightarrow> Pipeline" where
  "cleanup_descriptorSetLayout s =
     (if descriptorSetLayout s \<noteq> VK_NULL_HANDLE
      then s\<lparr>gpu := vkDestroy DescriptorSetLayout (descriptorSetLayout s) (gpu s),
             descriptorSetLayout := VK_NULL_HANDLE\<rparr>
      else s)"

definition cleanup_vertexBuffer :: "Pipeline \<Rightarrow> Pipeline" where
  "cleanup_vertexBuffer s0 =
     (let s1 = (if vertexBuffer s0 \<noteq> VK_NULL_HANDLE
                then s0\<lparr>gpu := vkDestroy Buffer (vertexBuffer s0) (gpu s0), vertexBuffer := VK_NULL_HANDLE\<rparr>
                else s0)
      in if vertexBufferMemory s1 \<noteq> VK_NULL_HANDLE
         then s1\<lparr>gpu := vkDestroy DeviceMemory (vertexBufferMemory s1) (gpu s1),
                 vertexBufferMemory := VK_NULL_HANDLE\<rparr>
         else s1)"

definition cleanup_syncObjects_body :: "Pipeline \<Rightarrow> nat \<Rightarrow> Gpu \<Rightarrow> Gpu" where
  "cleanup_syncObjects_body s i g0 =
     (let g1 = (if length (imageAvailableSemaphores s) > i
                then vkDestroy Semaphore (imageAvailableSemaphores s ! i) g0 else g0);
          g2 = (if length (renderFinishedSemaphores s) > i
                then vkDestroy Semaphore (renderFinishedSemaphores s ! i) g1 else g1)
      in if length (inFlightFences s) > i
         then vkDestroy Fence (inFlightFences s ! i) g2 else g2)"

definition cleanup_syncObjects :: "nat \<Rightarrow> Pipeline \<Rightarrow> Pipeline" where
  "cleanup_syncObjects N s = s\<lparr>gpu := for_each N (cleanup_syncObjects_body s) (gpu s)\<rparr>"

definition cleanup_commandPools_body :: "Pipeline \<Rightarrow> nat \<Rightarrow> Gpu \<Rightarrow> Gpu" where
  "cleanup_commandPools_body s i g =
     (if commandPools s ! i \<noteq> VK_NULL_HANDLE then vkDestroy CommandPool (commandPools s ! i) g else g)"

definition cleanup_commandPools :: "Pipeline \<Rightarrow> Pipeline" where
  "cleanup_commandPools s =
     s\<lparr>gpu := for_each (length (commandPools s)) (cleanup_commandPools_body s) (gpu s)\<rparr>"

text \<open>
  \<open>for (auto& framebuffer : framebuffers)\<close>: each non-null element is destroyed and set to
  null through the reference; then the vector is cleared.
\<close>

definition destroyFramebuffer :: "handle \<Rightarrow> Gpu \<Rightarrow> Gpu" where
  "destroyFramebuffer fb g = (if fb \<noteq> VK_NULL_HANDLE then vkDestroy Framebuffer fb g else g)"

definition cleanup_framebuffers :: "Pipeline \<Rightarrow> Pipeline" where
  "cleanup_framebuffers s0 =
     (let s1 = s0\<lparr>gpu := fold destroyFramebuffer (framebuffers s0) (gpu s0),
                  framebuffers := map (\<lambda>fb. if fb \<noteq> VK_NULL_HANDLE then VK_NULL_HANDLE else fb)
                                      (framebuffers s0)\<rparr>
      in s1\<lparr>framebuffers := []\<rparr>)"

definition cleanup_graphicsPipeline :: "Pipeline \<Rightarrow> Pipeline" where
  "cleanup_graphicsPipeline s =
     (if graphicsPipeline s \<noteq> VK_NULL_HANDLE
      then s\<lparr>gpu := vkDestroy GraphicsPipeline (graphicsPipeline s) (gpu s),
             graphicsPipeline := VK_NULL_HANDLE\<rparr>
      else s)"

definition cleanup_pipelineLayout :: "Pipeline \<Rightarrow> Pipeline" where
  "cleanup_pipelineLayout s =
     (if pipelineLayout s \<noteq> VK_NULL_HANDLE
      then s\<lparr>gpu := vkDestroy PipelineLayout (pipelineLayout s) (gpu s), pipelineLayout := VK_NULL_HANDLE\<rparr>
      else s)"

definition cleanup_renderPass :: "Pipeline \<Rightarrow> Pipeline" where
  "cleanup_renderPass s =
     (if renderPass s \<noteq> VK_NULL_HANDLE
      then s\<lparr>gpu := vkDestroy RenderPass (renderPass s) (gpu s), renderPass := VK_NULL_HANDLE\<rparr>
      else s)"

definition cleanup_clearVectors :: "Pipeline \<Rightarrow> Pipeline" where
  "cleanup_clearVectors s =
     s\<lparr>imageAvailableSemaphores := [],
       renderFinishedSemaphores := [],
       inFlightFences := [],
       commandBuffers := [],
       commandPools := [],
       descriptorSets := []\<rparr>"

definition cleanup :: "nat \<Rightarrow> Pipeline \<Rightarrow> Pipeline" where
  "cleanup N s =
     (cleanup_clearVectors
       (cleanup_renderPass
         (cleanup_pipelineLayout
           (cleanup_graphicsPipeline
             (cleanup_framebuffers
               (cleanup_commandPools
                 (cleanup_syncObjects N
                   (cleanup_vertexBuffer
                     (cleanup_descriptorSetLayout
                       (cleanup_descriptorPool
                         (cleanup_uniformBuffers
                           (waitIdle s))))))))))))
       \<lparr>state := UNINITIALIZED\<rparr>"

subsection \<open>beginFrame and endFrame\<close>

text \<open>
  \<open>vkAcquireNextImageKHR\<close>: with \<open>VK_SUCCESS\<close> or \<open>VK_SUBOPTIMAL_KHR\<close> an image index is
  written and the semaphore will be signaled; with any other result neither happens.
\<close>

definition vkAcquireNextImageKHR :: "Env \<Rightarrow> handle \<Rightarrow> Gpu \<Rightarrow> VkResult \<times> nat option \<times> Gpu" where
  "vkAcquireNextImageKHR env sem g =
     (let r = vkResult env AtAcquireNextImage in
      if r = VK_SUCCESS \<or> r = VK_SUBOPTIMAL_KHR
      then (r, Some (acquiredImageIndex env),
            logCall (AcquireNextImage sem r) (g\<lparr>semaphoreSignaled := (semaphoreSignaled g)(sem := True)\<rparr>))
      else (r, None, logCall (AcquireNextImage sem r) g))"

definition vkBeginCommandBuffer :: "Env \<Rightarrow> handle \<Rightarrow> Gpu \<Rightarrow> VkResult \<times> Gpu" where
  "vkBeginCommandBuffer env cb g =
     (let r = vkResult env AtBeginCommandBuffer in
      if r = VK_SUCCESS
      then (r, logCall (BeginCommandBuffer cb r) (g\<lparr>recorder := (recorder g)(cb := Recording)\<rparr>))
      else (r, logCall (BeginCommandBuffer cb r) g))"

definition vkEndCommandBuffer :: "Env \<Rightarrow> handle \<Rightarrow> Gpu \<Rightarrow> VkResult \<times> Gpu" where
  "vkEndCommandBuffer env cb g =
     (let r = vkResult env AtEndCommandBuffer in
      if r = VK_SUCCESS
      then (r, logCall (EndCommandBuffer cb r) (g\<lparr>recorder := (recorder g)(cb := Executable)\<rparr>))
      else (r, logCall (EndCommandBuffer cb r) g))"

text \<open>
  \<open>vkQueueSubmit\<close> of one recording: on success the wait semaphore is consumed, the signal
  semaphore will be signaled and the fence is pending until the device has finished.
\<close>

definition vkQueueSubmit :: "Env \<Rightarrow> handle \<Rightarrow> handle \<Rightarrow> handle \<Rightarrow> handle \<Rightarrow> Gpu \<Rightarrow> VkResult \<times> Gpu" where
  "vkQueueSubmit env cb waitSem signalSem fence g =
     (let r = vkResult env AtQueueSubmit in
      if r = VK_SUCCESS
      then (r, logCall (QueueSubmit cb waitSem signalSem fence r)
                 (g\<lparr>semaphoreSignaled := (semaphoreSignaled g)(waitSem := False, signalSem := True),
                    fenceStatus := (fenceStatus g)(fence := Pending)\<rparr>))
      else (r, logCall (QueueSubmit cb waitSem signalSem fence r) g))"

definition vkQueuePresentKHR :: "Env \<Rightarrow> handle \<Rightarrow> nat \<Rightarrow> Gpu \<Rightarrow> VkResult \<times> Gpu" where
  "vkQueuePresentKHR env waitSem imageIndex g =
     (let r = vkResult env AtQueuePresent in
      if r = VK_SUCCESS \<or> r = VK_SUBOPTIMAL_KHR
      then (r, logCall (QueuePresent waitSem imageIndex r)
                 (g\<lparr>semaphoreSignaled := (semaphoreSignaled g)(waitSem := False)\<rparr>))
      else (r, logCall (QueuePresent waitSem imageIndex r) g))"

text \<open>
  \<open>updateUniformBuffer\<close>: the matrices are \<open>float\<close> values computed by glm and are not
  modelled; what remains is the copy into the slot's mapped block.
\<close>

definition updateUniformBuffer :: "nat \<Rightarrow> Pipeline \<Rightarrow> Pipeline" where
  "updateUniformBuffer currentImage s =
     s\<lparr>gpu := logCall (HostWriteUniform (uniformBuffersMapped s ! currentImage)) (gpu s)\<rparr>"

text \<open>
  \<open>beginFrame\<close> returns \<open>None\<close> when the fence wait at its start never returns. The vectors
  are indexed as the source indexes them; in a state built by \<open>initialize\<close> every slot
  vector has an entry at \<open>currentFrame\<close>.
\<close>

definition beginFrame :: "Env \<Rightarrow> Pipeline \<Rightarrow> (bool \<times> Pipeline) option" where
  "beginFrame env s =
     (if state s \<noteq> READY
      then Some (False, setError ''Pipeline is not in ready state'' s)
      else case vkWaitForFences (inFlightFences s ! currentFrame s) (gpu s) of
        None \<Rightarrow> None
      | Some g1 \<Rightarrow>
      (case vkAcquireNextImageKHR env (imageAvailableSemaphores s ! currentFrame s) g1 of
        (result, written, g2) \<Rightarrow>
      let s1 = s\<lparr>gpu := g2,
                 currentImageIndex := (case written of None \<Rightarrow> currentImageIndex s | Some k \<Rightarrow> k)\<rparr>
      in if result = VK_ERROR_OUT_OF_DATE_KHR
      then Some (False, s1\<lparr>state := RECREATING\<rparr>)
      else if result \<noteq> VK_SUCCESS \<and> result \<noteq> VK_SUBOPTIMAL_KHR
      then Some (False, setError ''Failed to acquire swap chain image'' s1)
      else let cb = commandBuffers s1 ! currentFrame s1;
               g3 = vkResetFences (inFlightFences s1 ! currentFrame s1) (gpu s1);
               g4 = vkResetCommandBuffer cb g3
      in case vkBeginCommandBuffer env cb g4 of
        (r, g5) \<Rightarrow>
      if r \<noteq> VK_SUCCESS
      then Some (False, setError ''Failed to begin recording command buffer'' (s1\<lparr>gpu := g5\<rparr>))
      else let g6 = logCall (CmdBeginRenderPass cb (framebuffers s1 ! currentImageIndex s1)) g5;
               g7 = logCall (CmdBindPipeline cb (graphicsPipeline s1)) g6;
               s2 = updateUniformBuffer (currentFrame s1) (s1\<lparr>gpu := g7\<rparr>)
      in Some (True,
               s2\<lparr>gpu := logCall (CmdBindDescriptorSets cb (descriptorSets s2 ! currentFrame s2)) (gpu s2)\<rparr>)))"

definition endFrame :: "nat \<Rightarrow> Env \<Rightarrow> Pipeline \<Rightarrow> bool \<times> Pipeline" where
  "endFrame N env s =
     (if state s \<noteq> READY
      then (False, setError ''Pipeline is not in ready state'' s)
      else let cb = commandBuffers s ! currentFrame s;
               g1 = logCall (CmdEndRenderPass cb) (gpu s)
      in case vkEndCommandBuffer env cb g1 of
        (r, g2) \<Rightarrow>
      if r \<noteq> VK_SUCCESS
      then (False, setError ''Failed to record command buffer'' (s\<lparr>gpu := g2\<rparr>))
      else case vkQueueSubmit env cb
                  (imageAvailableSemaphores s ! currentFrame s)
                  (renderFinishedSemaphores s ! currentFrame s)
                  (inFlightFences s ! currentFrame s) g2 of
        (r', g3) \<Rightarrow>
      if r' \<noteq> VK_SUCCESS
      then (False, setError ''Failed to submit draw command buffer'' (s\<lparr>gpu := g3\<rparr>))
      else case vkQueuePresentKHR env (renderFinishedSemaphores s ! currentFrame s)
                  (currentImageIndex s) g3 of
        (result, g4) \<Rightarrow>
      if result = VK_ERROR_OUT_OF_DATE_KHR \<or> result = VK_SUBOPTIMAL_KHR
      then (True, s\<lparr>gpu := g4, state := RECREATING,
                    currentFrame := (currentFrame s + 1) mod N\<rparr>)
      else if result \<noteq> VK_SUCCESS
      then (False, setError ''Failed to present swap chain image'' (s\<lparr>gpu := g4\<rparr>))
      else (True, s\<lparr>gpu := g4, currentFrame := (currentFrame s + 1) mod N\<rparr>))"

subsection \<open>recreateIfNeeded\<close>


section \<open>Vocabulary of the properties\<close>

text \<open>The calls a step added to the log.\<close>

definition new_calls :: "Pipeline \<Rightarrow> Pipeline \<Rightarrow> vk_call list" where
  "new_calls s s' = drop (length (calls (gpu s))) (calls (gpu s'))"

text \<open>The log \<open>new\<close> is the log \<open>old\<close> followed by calls that all satisfy \<open>K\<close>.\<close>

definition grows_by :: "(vk_call \<Rightarrow> bool) \<Rightarrow> vk_call list \<Rightarrow> vk_call list \<Rightarrow> bool" where
  "grows_by K old new \<longleftrightarrow>
     length old \<le> length new \<and> take (length old) new = old \<and> list_all K (drop (length old) new)"

text \<open>
  A call that gives up an object the pipeline holds in a member: every destroy or free
  except that of a shader module (which lives in a local of \<open>createGraphicsPipeline\<close>),
  and the unmapping of a uniform block.
\<close>

fun releases_owned :: "vk_call \<Rightarrow> bool" where
  "releases_owned (Destroy k h) = (k \<noteq> ShaderModule)"
| "releases_owned (UnmapMemory m) = True"
| "releases_owned _ = False"

definition keeps_owned :: "vk_call \<Rightarrow> bool" where
  "keeps_owned c = (\<not> releases_owned c)"

text \<open>
  A step that leaves \<open>state\<close>, \<open>currentFrame\<close> and the context pointer alone, never
  lowers the handle counter, and adds to the log only calls that satisfy \<open>K\<close>.
\<close>

definition advances :: "(vk_call \<Rightarrow> bool) \<Rightarrow> Pipeline \<Rightarrow> Pipeline \<Rightarrow> bool" where
  "advances K s s' \<longleftrightarrow>
     state s' = state s \<and> currentFrame s' = currentFrame s \<and> vkContext s' = vkContext s \<and>
     nextHandle (gpu s) \<le> nextHandle (gpu s') \<and>
     grows_by K (calls (gpu s)) (calls (gpu s'))"

text \<open>
  A surface that no longer matches the window: \<open>VK_ERROR_OUT_OF_DATE_KHR\<close>, and
  \<open>VK_SUBOPTIMAL_KHR\<close> (still usable, no longer an exact match).
\<close>

definition is_stale :: "VkResult \<Rightarrow> bool" where
  "is_stale r = (r = VK_ERROR_OUT_OF_DATE_KHR \<or> r = VK_SUBOPTIMAL_KHR)"

subsection \<open>Concrete inputs\<close>

text \<open>A device on which nothing has happened yet.\<close>

definition fresh_gpu :: Gpu where
  "fresh_gpu =
     \<lparr> nextHandle = 0,
       fenceStatus = (\<lambda>_. Unsignaled),
       semaphoreSignaled = (\<lambda>_. False),
       recorder = (\<lambda>_. Initial),
       calls = [] \<rparr>"

text \<open>A driver that grants every request, in front of a swapchain of three images.\<close>

definition env_ok :: Env where
  "env_ok =
     \<lparr> vkResult = (\<lambda>_. VK_SUCCESS),
       swapChainImages = [101, 102, 103],
       acquiredImageIndex = 1,
       shaderFileOpens = (\<lambda>_. True) \<rparr>"

text \<open>The same driver, except that the call at \<open>site\<close> returns \<open>r\<close>.\<close>

definition env_with :: "vk_site \<Rightarrow> VkResult \<Rightarrow> Env" where
  "env_with site r = env_ok\<lparr>vkResult := (\<lambda>x. if x = site then r else VK_SUCCESS)\<rparr>"

text \<open>A pipeline just constructed on a valid device, and the same after \<open>initialize\<close>.\<close>

definition new_pipeline :: Pipeline where
  "new_pipeline = Pipeline_ctor (Some 1) fresh_gpu"

definition ready_pipeline :: Pipeline where
  "ready_pipeline = snd (initialize 2 env_ok new_pipeline)"

subsection \<open>Driving the frame loop\<close>






text \<open>A slot vector of \<open>n\<close> entries, none of them \<open>VK_NULL_HANDLE\<close>.\<close>

definition filled :: "nat \<Rightarrow> handle list \<Rightarrow> bool" where
  "filled n xs \<longleftrightarrow> length xs = n \<and> VK_NULL_HANDLE \<notin> set xs"

text \<open>If \<open>f\<close> is entered with \<open>P\<close> and returns success, it leaves \<open>Q\<close>.\<close>

definition ensures :: "('s \<Rightarrow> bool) \<Rightarrow> ('s \<Rightarrow> bool \<times> 's) \<Rightarrow> ('s \<Rightarrow> bool) \<Rightarrow> bool" where
  "ensures P f Q \<longleftrightarrow> (\<forall>s. P s \<and> fst (f s) \<longrightarrow> Q (snd (f s)))"

text \<open>
  What stands after the first \<open>k\<close> build steps of \<open>initialize\<close> have succeeded, for \<open>N\<close>
  slots and \<open>n\<close> presentable images.
\<close>

definition built :: "nat \<Rightarrow> nat \<Rightarrow> nat \<Rightarrow> Pipeline \<Rightarrow> bool" where
  "built k N n t \<longleftrightarrow>
     (4 \<le> k \<longrightarrow> filled n (framebuffers t)) \<and>
     (5 \<le> k \<longrightarrow> filled N (commandPools t)) \<and>
     (6 \<le> k \<longrightarrow> filled N (commandBuffers t)) \<and>
     (7 \<le> k \<longrightarrow> filled N (uniformBuffers t) \<and> filled N (uniformBuffersMemory t) \<and>
                length (uniformBuffersMapped t) = N) \<and>
     (9 \<le> k \<longrightarrow> filled N (descriptorSets t)) \<and>
     (10 \<le> k \<longrightarrow> filled N (imageAvailableSemaphores t) \<and> filled N (renderFinishedSemaphores t) \<and>
                 filled N (inFlightFences t))"

subsection \<open>The calls of cleanup, phase by phase\<close>

text \<open>What one round of each release loop of \<open>cleanup\<close> calls, from the vectors it reads.\<close>

definition uniformBuffers_release_calls ::
    "handle list \<Rightarrow> handle list \<Rightarrow> handle list \<Rightarrow> nat \<Rightarrow> vk_call list" where
  "uniformBuffers_release_calls ub um up i =
     (if up ! i \<noteq> VK_NULL_HANDLE then [UnmapMemory (um ! i)] else []) @
     (if ub ! i \<noteq> VK_NULL_HANDLE then [Destroy Buffer (ub ! i)] else []) @
     (if um ! i \<noteq> VK_NULL_HANDLE then [Destroy DeviceMemory (um ! i)] else [])"

definition syncObjects_release_calls ::
    "handle list \<Rightarrow> handle list \<Rightarrow> handle list \<Rightarrow> nat \<Rightarrow> vk_call list" where
  "syncObjects_release_calls ia rf fe i =
     (if length ia > i then [Destroy Semaphore (ia ! i)] else []) @
     (if length rf > i then [Destroy Semaphore (rf ! i)] else []) @
     (if length fe > i then [Destroy Fence (fe ! i)] else [])"

definition commandPools_release_calls :: "handle list \<Rightarrow> nat \<Rightarrow> vk_call list" where
  "commandPools_release_calls cp i =
     (if cp ! i \<noteq> VK_NULL_HANDLE then [Destroy CommandPool (cp ! i)] else [])"

definition framebuffers_release_calls :: "handle list \<Rightarrow> vk_call list" where
  "framebuffers_release_calls fbs = map (Destroy Framebuffer) (filter (\<lambda>fb. fb \<noteq> VK_NULL_HANDLE) fbs)"

definition destroy_if_set :: "object_kind \<Rightarrow> handle \<Rightarrow> vk_call list" where
  "destroy_if_set k h = (if h \<noteq> VK_NULL_HANDLE then [Destroy k h] else [])"

definition waitIdle_calls :: "Pipeline \<Rightarrow> vk_call list" where
  "waitIdle_calls s =
     (case vkContext s of
        None \<Rightarrow> []
      | Some device \<Rightarrow> if device \<noteq> VK_NULL_HANDLE then [DeviceWaitIdle] else [])"

definition cleanup_calls :: "nat \<Rightarrow> Pipeline \<Rightarrow> vk_call list" where
  "cleanup_calls N s =
     waitIdle_calls s @
     concat (map (uniformBuffers_release_calls (uniformBuffers s) (uniformBuffersMemory s)
                    (uniformBuffersMapped s)) [0..<length (uniformBuffers s)]) @
     destroy_if_set DescriptorPool (descriptorPool s) @
     destroy_if_set DescriptorSetLayout (descriptorSetLayout s) @
     destroy_if_set Buffer (vertexBuffer s) @
     destroy_if_set DeviceMemory (vertexBufferMemory s) @
     concat (map (syncObjects_release_calls (imageAvailableSemaphores s) (renderFinishedSemaphores s)
                    (inFlightFences s)) [0..<N]) @
     concat (map (commandPools_release_calls (commandPools s)) [0..<length (commandPools s)]) @
     framebuffers_release_calls (framebuffers s) @
     destroy_if_set GraphicsPipeline (graphicsPipeline s) @
     destroy_if_set PipelineLayout (pipelineLayout s) @
     destroy_if_set RenderPass (renderPass s)"

text \<open>
  \<open>before P Q cs\<close>: in the log \<open>cs\<close> every call that satisfies \<open>P\<close> comes before every
  call that satisfies \<open>Q\<close> (after a \<open>Q\<close> call there is no \<open>P\<close> call).
\<close>

fun before :: "('a \<Rightarrow> bool) \<Rightarrow> ('a \<Rightarrow> bool) \<Rightarrow> 'a list \<Rightarrow> bool" where
  "before P Q [] = True"
| "before P Q (x # xs) = ((Q x \<longrightarrow> \<not> list_ex P xs) \<and> before P Q xs)"

fun destroys :: "object_kind \<Rightarrow> vk_call \<Rightarrow> bool" where
  "destroys k (Destroy k' h) = (k' = k)"
| "destroys k _ = False"

text \<open>Release of a buffer and its memory, and of a semaphore or fence.\<close>

fun releases_buffer :: "vk_call \<Rightarrow> bool" where
  "releases_buffer (Destroy k h) = (k = Buffer \<or> k = DeviceMemory)"
| "releases_buffer (UnmapMemory m) = True"
| "releases_buffer _ = False"

fun releases_sync :: "vk_call \<Rightarrow> bool" where
  "releases_sync (Destroy k h) = (k = Semaphore \<or> k = Fence)"
| "releases_sync _ = False"

text \<open>A pipeline that holds nothing: every handle null, every vector empty.\<close>

definition holds_nothing :: "Pipeline \<Rightarrow> bool" where
  "holds_nothing s \<longleftrightarrow>
     pipelineLayout s = VK_NULL_HANDLE \<and> graphicsPipeline s = VK_NULL_HANDLE \<and>
     renderPass s = VK_NULL_HANDLE \<and> descriptorSetLayout s = VK_NULL_HANDLE \<and>
     descriptorPool s = VK_NULL_HANDLE \<and> vertexBuffer s = VK_NULL_HANDLE \<and>
     vertexBufferMemory s = VK_NULL_HANDLE \<and>
     framebuffers s = [] \<and> commandPools s = [] \<and> commandBuffers s = [] \<and>
     uniformBuffers s = [] \<and> uniformBuffersMemory s = [] \<and> uniformBuffersMapped s = [] \<and>
     descriptorSets s = [] \<and> imageAvailableSemaphores s = [] \<and>
     renderFinishedSemaphores s = [] \<and> inFlightFences s = []"

text \<open>
  The objects \<open>cleanup\<close> has to destroy itself: the non-null handles in the members, each
  with its kind. (Command buffers and descriptor sets go with their pools.)
\<close>

definition owned_objects :: "Pipeline \<Rightarrow> (object_kind \<times> handle) list" where
  "owned_objects s =
     filter (\<lambda>(k, h). h \<noteq> VK_NULL_HANDLE)
       ([(DescriptorPool, descriptorPool s), (DescriptorSetLayout, descriptorSetLayout s),
         (Buffer, vertexBuffer s), (DeviceMemory, vertexBufferMemory s),
         (GraphicsPipeline, graphicsPipeline s), (PipelineLayout, pipelineLayout s),
         (RenderPass, renderPass s)] @
        map (Pair Buffer) (uniformBuffers s) @
        map (Pair DeviceMemory) (uniformBuffersMemory s) @
        map (Pair Semaphore) (imageAvailableSemaphores s) @
        map (Pair Semaphore) (renderFinishedSemaphores s) @
        map (Pair Fence) (inFlightFences s) @
        map (Pair CommandPool) (commandPools s) @
        map (Pair Framebuffer) (framebuffers s))"

text \<open>
  The shape every pipeline state has: the three uniform-block vectors are resized and
  cleared together, and no sync vector is longer than the slot count.
\<close>

definition slots_bounded :: "nat \<Rightarrow> Pipeline \<Rightarrow> bool" where
  "slots_bounded N s \<longleftrightarrow>
     length (uniformBuffersMemory s) = length (uniformBuffers s) \<and>
     length (uniformBuffersMapped s) = length (uniformBuffers s) \<and>
     length (imageAvailableSemaphores s) \<le> N \<and>
     length (renderFinishedSemaphores s) \<le> N \<and>
     length (inFlightFences s) \<le> N"



section \<open>Loops and step chains\<close>

lemma for_loop_step:
  "i < n \<Longrightarrow> for_loop i n body s =
     (case body i s of (ok, s') \<Rightarrow> if ok then for_loop (Suc i) n body s' else (False, s'))"
  by (subst for_loop.simps) simp

lemma for_loop_done: "\<not> i < n \<Longrightarrow> for_loop i n body s = (True, s)"
  by (subst for_loop.simps) simp

lemma for_loop_inv:
  assumes step: "\<And>j t. P t \<Longrightarrow> P (snd (body j t))"
  shows "P s \<Longrightarrow> P (snd (for_loop i n body s))"
proof (induction "n - i" arbitrary: i s)
  case 0
  then show ?case by (simp add: for_loop_done)
next
  case (Suc k)
  then have lt: "i < n" by simp
  obtain ok s' where b: "body i s = (ok, s')" by (cases "body i s")
  have P': "P s'" using step [OF Suc.prems, of i] b by simp
  show ?case
  proof (cases ok)
    case True
    have "k = n - Suc i" using Suc.hyps(2) by simp
    from Suc.hyps(1) [OF this P'] show ?thesis using lt b True by (simp add: for_loop_step)
  next
    case False
    then show ?thesis using lt b P' by (simp add: for_loop_step)
  qed
qed

lemma for_loop_indexed:
  assumes step: "\<And>j t. i \<le> j \<Longrightarrow> j < n \<Longrightarrow> Q j t \<Longrightarrow> fst (body j t) \<Longrightarrow> Q (Suc j) (snd (body j t))"
  shows "i \<le> n \<Longrightarrow> Q i s \<Longrightarrow> fst (for_loop i n body s) \<Longrightarrow> Q n (snd (for_loop i n body s))"
  using step
proof (induction "n - i" arbitrary: i s)
  case 0
  then show ?case by (simp add: for_loop_done)
next
  case (Suc k)
  then have lt: "i < n" by simp
  obtain ok s' where b: "body i s = (ok, s')" by (cases "body i s")
  have ok: ok using Suc.prems(3) lt b by (simp add: for_loop_step split: if_splits)
  have Q': "Q (Suc i) s'" using Suc.prems(4) [of i s] lt Suc.prems(2) b ok by simp
  have k: "k = n - Suc i" using Suc.hyps(2) by simp
  have rest: "fst (for_loop (Suc i) n body s')" using Suc.prems(3) lt b ok by (simp add: for_loop_step)
  have "Q n (snd (for_loop (Suc i) n body s'))"
  proof (rule Suc.hyps(1) [OF k _ Q' rest])
    show "Suc i \<le> n" using lt by simp
  next
    fix j t assume "Suc i \<le> j" "j < n" "Q j t" "fst (body j t)"
    then show "Q (Suc j) (snd (body j t))" using Suc.prems(4) [of j t] by simp
  qed
  then show ?case using lt b ok by (simp add: for_loop_step)
qed

lemma for_loop_succeeds:
  assumes step: "\<And>j t. P t \<Longrightarrow> fst (body j t) \<and> P (snd (body j t))"
  shows "P s \<Longrightarrow> fst (for_loop i n body s)"
proof (induction "n - i" arbitrary: i s)
  case 0
  then show ?case by (simp add: for_loop_done)
next
  case (Suc k)
  then have lt: "i < n" by simp
  obtain ok s' where b: "body i s = (ok, s')" by (cases "body i s")
  have ok: ok and P': "P s'" using step [OF Suc.prems, of i] b by simp_all
  have k: "k = n - Suc i" using Suc.hyps(2) by simp
  from Suc.hyps(1) [OF k P'] show ?case using lt b ok by (simp add: for_loop_step)
qed

lemma fold_inv:
  assumes step: "\<And>x t. P t \<Longrightarrow> P (f x t)"
  shows "P s \<Longrightarrow> P (fold f xs s)"
  by (induction xs arbitrary: s) (simp_all add: step)

lemma for_each_inv:
  assumes step: "\<And>j t. P t \<Longrightarrow> P (body j t)"
  shows "P s \<Longrightarrow> P (for_each n body s)"
  unfolding for_each_def by (rule fold_inv) (rule step)

lemma run_steps_inv:
  assumes step: "\<And>f t. f \<in> set fs \<Longrightarrow> P t \<Longrightarrow> P (snd (f t))"
  shows "P s \<Longrightarrow> P (snd (run_steps fs s))"
  using step
proof (induction fs arbitrary: s)
  case Nil
  then show ?case by simp
next
  case (Cons f fs)
  obtain ok s' where b: "f s = (ok, s')" by (cases "f s")
  have P': "P s'" using Cons.prems(2) [of f s] Cons.prems(1) b by simp
  show ?case
  proof (cases ok)
    case True
    have "P (snd (run_steps fs s'))" using Cons.IH [OF P'] Cons.prems(2) by simp
    then show ?thesis using b True by simp
  next
    case False
    then show ?thesis using b P' by simp
  qed
qed

lemma run_steps_succeeds:
  assumes step: "\<And>f t. f \<in> set fs \<Longrightarrow> P t \<Longrightarrow> fst (f t) \<and> P (snd (f t))"
  shows "P s \<Longrightarrow> fst (run_steps fs s)"
  using step
proof (induction fs arbitrary: s)
  case Nil
  then show ?case by simp
next
  case (Cons f fs)
  obtain ok s' where b: "f s = (ok, s')" by (cases "f s")
  have ok: ok and P': "P s'" using Cons.prems(2) [of f s] Cons.prems(1) b by simp_all
  have "fst (run_steps fs s')" using Cons.IH [OF P'] Cons.prems(2) by simp
  then show ?case using b ok by simp
qed


section \<open>What every build step leaves alone: state, slot index, context; no release\<close>

lemma grows_byI: "new = old @ cs \<Longrightarrow> list_all K cs \<Longrightarrow> grows_by K old new"
  by (simp add: grows_by_def)

lemma grows_byD: "grows_by K old new \<Longrightarrow> new = old @ drop (length old) new \<and> list_all K (drop (length old) new)"
  unfolding grows_by_def by (metis append_take_drop_id)

lemma grows_by_refl: "grows_by K cs cs"
  by (simp add: grows_by_def)

lemma grows_by_trans:
  assumes "grows_by K a b" and "grows_by K b c"
  shows "grows_by K a c"
proof -
  obtain x where x: "b = a @ x" "list_all K x" using grows_byD [OF assms(1)] by blast
  obtain y where y: "c = b @ y" "list_all K y" using grows_byD [OF assms(2)] by blast
  have "c = a @ (x @ y)" using x y by simp
  moreover have "list_all K (x @ y)" using x y by simp
  ultimately show ?thesis by (rule grows_byI)
qed

lemma grows_by_snoc: "K c \<Longrightarrow> grows_by K cs (cs @ [c])"
  by (simp add: grows_by_def)

lemma advances_refl: "advances K s s"
  by (simp add: advances_def grows_by_refl)

lemma advances_trans: "advances K a b \<Longrightarrow> advances K b c \<Longrightarrow> advances K a c"
  unfolding advances_def using grows_by_trans by fastforce

lemma for_loop_advances:
  assumes "\<And>j t. advances K t (snd (body j t))"
  shows "advances K s (snd (for_loop i n body s))"
  by (rule for_loop_inv [where P = "advances K s"]) (blast intro: advances_trans assms advances_refl)+

lemma run_steps_advances:
  assumes "\<And>f t. f \<in> set fs \<Longrightarrow> advances K t (snd (f t))"
  shows "advances K s (snd (run_steps fs s))"
  by (rule run_steps_inv [where P = "advances K s"]) (blast intro: advances_trans assms advances_refl)+

lemma for_each_advances:
  assumes "\<And>j t. advances K t (body j t)"
  shows "advances K s (for_each n body s)"
  by (rule for_each_inv [where P = "advances K s"]) (blast intro: advances_trans assms advances_refl)+

lemma vkCreate_log:
  "vkCreate env site kind g = (r, h, g') \<Longrightarrow>
     calls g' = calls g @ [Create kind r h] \<and> nextHandle g \<le> nextHandle g' \<and>
     fenceStatus g' = fenceStatus g \<and> semaphoreSignaled g' = semaphoreSignaled g \<and> recorder g' = recorder g \<and>
     r = vkResult env site \<and>
     (r = VK_SUCCESS \<longrightarrow> h = Suc (nextHandle g) \<and> nextHandle g' = Suc (nextHandle g))"
  by (auto simp: vkCreate_def logCall_def Let_def split: if_splits)

lemma createDescriptorSetLayout_advances: "advances keeps_owned s (snd (createDescriptorSetLayout env s))"
  by (auto simp: createDescriptorSetLayout_def advances_def setError_def keeps_owned_def
      split: prod.splits dest!: vkCreate_log intro!: grows_by_snoc)

lemma createRenderPass_advances: "advances keeps_owned s (snd (createRenderPass env s))"
  by (auto simp: createRenderPass_def advances_def setError_def keeps_owned_def
      split: prod.splits dest!: vkCreate_log intro!: grows_by_snoc)

lemma createDescriptorPool_advances: "advances keeps_owned s (snd (createDescriptorPool env s))"
  by (auto simp: createDescriptorPool_def advances_def setError_def keeps_owned_def
      split: prod.splits dest!: vkCreate_log intro!: grows_by_snoc)

lemma createFramebuffers_body_advances: "advances keeps_owned s (snd (createFramebuffers_body env i s))"
  by (auto simp: createFramebuffers_body_def advances_def setError_def keeps_owned_def
      split: prod.splits dest!: vkCreate_log intro!: grows_by_snoc)

lemma createCommandPools_body_advances: "advances keeps_owned s (snd (createCommandPools_body env i s))"
  by (auto simp: createCommandPools_body_def advances_def setError_def keeps_owned_def
      split: prod.splits dest!: vkCreate_log intro!: grows_by_snoc)

lemma createCommandBuffers_body_advances: "advances keeps_owned s (snd (createCommandBuffers_body env i s))"
  by (auto simp: createCommandBuffers_body_def vkAllocateCommandBuffers_def advances_def setError_def keeps_owned_def
      split: prod.splits if_splits dest!: vkCreate_log intro!: grows_by_snoc)

lemma grows_by_append [simp]: "grows_by K cs (cs @ xs) \<longleftrightarrow> list_all K xs"
  by (simp add: grows_by_def)

lemmas vk_defs = vkCreate_def logCall_def vkDestroy_def vkCreateFence_def vkCreateSemaphore_def
  vkAllocateCommandBuffers_def vkMapMemory_def vkAllocateDescriptorSets_def setError_def

lemma advances_gpu:
  "nextHandle (gpu s) \<le> nextHandle g \<Longrightarrow> calls g = calls (gpu s) @ cs \<Longrightarrow> list_all K cs \<Longrightarrow>
   state t = state s \<Longrightarrow> currentFrame t = currentFrame s \<Longrightarrow> vkContext t = vkContext s \<Longrightarrow> gpu t = g \<Longrightarrow>
   advances K s t"
  by (simp add: advances_def)

lemma vkCreate_advances:
  assumes "vkCreate env site kind (gpu s) = (r, h, g)"
    and "state t = state s" "currentFrame t = currentFrame s" "vkContext t = vkContext s" "gpu t = g"
  shows "advances keeps_owned s t"
  using vkCreate_log [OF assms(1)] assms(2-)
  by (intro advances_gpu [where cs = "[Create kind r h]"]) (simp_all add: keeps_owned_def)

lemma readFile_advances: "advances K s (readFile env f s)"
  by (simp add: readFile_def setError_def advances_def grows_by_refl)

lemma createShaderModule_advances: "advances keeps_owned s (snd (createShaderModule env site s))"
proof -
  obtain r h g where c: "vkCreate env site ShaderModule (gpu s) = (r, h, g)"
    by (cases "vkCreate env site ShaderModule (gpu s)")
  show ?thesis
    using c by (auto simp: createShaderModule_def intro!: vkCreate_advances [OF c])
qed

lemma advances_setError: "advances K s t \<Longrightarrow> advances K s (setError m t)"
  by (simp add: advances_def setError_def)

lemma advances_destroy_shader:
  "advances keeps_owned s t \<Longrightarrow> gpu u = vkDestroy ShaderModule a (vkDestroy ShaderModule b (gpu t)) \<Longrightarrow>
   state u = state t \<Longrightarrow> currentFrame u = currentFrame t \<Longrightarrow> vkContext u = vkContext t \<Longrightarrow>
   advances keeps_owned s u"
  by (rule advances_trans, assumption)
     (simp add: advances_def vkDestroy_def logCall_def keeps_owned_def)

lemma createGraphicsPipeline_advances: "advances keeps_owned s (snd (createGraphicsPipeline env s))"
proof -
  define s1 where "s1 = readFile env ''shaders/basic.vert.spv'' s"
  define s2 where "s2 = readFile env ''shaders/basic.frag.spv'' s1"
  obtain v s3 where c3: "createShaderModule env AtVertShaderModule s2 = (v, s3)"
    by (cases "createShaderModule env AtVertShaderModule s2")
  obtain f s4 where c4: "createShaderModule env AtFragShaderModule s3 = (f, s4)"
    by (cases "createShaderModule env AtFragShaderModule s3")
  obtain r h g where c5: "vkCreate env AtPipelineLayout PipelineLayout (gpu s4) = (r, h, g)"
    by (cases "vkCreate env AtPipelineLayout PipelineLayout (gpu s4)")
  define s5 where "s5 = s4\<lparr>gpu := g, pipelineLayout := h\<rparr>"
  obtain r' h' g' where c6: "vkCreate env AtGraphicsPipeline GraphicsPipeline (gpu s5) = (r', h', g')"
    by (cases "vkCreate env AtGraphicsPipeline GraphicsPipeline (gpu s5)")
  have a1: "advances keeps_owned s s1" unfolding s1_def by (rule readFile_advances)
  have a2: "advances keeps_owned s s2" unfolding s2_def by (rule advances_trans [OF a1 readFile_advances])
  have a3: "advances keeps_owned s s3"
    using advances_trans [OF a2 createShaderModule_advances [of s2 env AtVertShaderModule]] c3 by simp
  have a4: "advances keeps_owned s s4"
    using advances_trans [OF a3 createShaderModule_advances [of s3 env AtFragShaderModule]] c4 by simp
  have a5: "advances keeps_owned s (s4\<lparr>gpu := g\<rparr>)"
    by (rule advances_trans [OF a4]) (rule vkCreate_advances [OF c5], simp_all)
  have a5': "advances keeps_owned s s5"
    by (rule advances_trans [OF a4]) (rule vkCreate_advances [OF c5], simp_all add: s5_def)
  have a6: "advances keeps_owned s (s5\<lparr>gpu := g'\<rparr>)"
    by (rule advances_trans [OF a5']) (rule vkCreate_advances [OF c6], simp_all)
  have res: "snd (createGraphicsPipeline env s) =
     (if v = VK_NULL_HANDLE \<or> f = VK_NULL_HANDLE then setError ''Failed to create shader modules'' s4
      else if r \<noteq> VK_SUCCESS then setError ''Failed to create pipeline layout'' (s4\<lparr>gpu := g\<rparr>)
      else if r' \<noteq> VK_SUCCESS
      then (setError ''Failed to create graphics pipeline'' (s5\<lparr>gpu := g'\<rparr>))
              \<lparr>gpu := vkDestroy ShaderModule v (vkDestroy ShaderModule f g')\<rparr>
      else s5\<lparr>gpu := vkDestroy ShaderModule v (vkDestroy ShaderModule f g'), graphicsPipeline := h'\<rparr>)"
    using c3 c4 c5 c6 unfolding createGraphicsPipeline_def s1_def [symmetric] s2_def [symmetric]
    by (simp add: Let_def s5_def [symmetric] s1_def [symmetric] s2_def [symmetric])
  have b1: "advances keeps_owned s (setError ''Failed to create shader modules'' s4)"
    by (rule advances_setError [OF a4])
  have b2: "advances keeps_owned s (setError ''Failed to create pipeline layout'' (s4\<lparr>gpu := g\<rparr>))"
    by (rule advances_setError [OF a5])
  have b3: "advances keeps_owned s ((setError ''Failed to create graphics pipeline'' (s5\<lparr>gpu := g'\<rparr>))
              \<lparr>gpu := vkDestroy ShaderModule v (vkDestroy ShaderModule f g')\<rparr>)"
    by (rule advances_destroy_shader [OF a6]) (simp_all add: setError_def)
  have b4: "advances keeps_owned s
      (s5\<lparr>gpu := vkDestroy ShaderModule v (vkDestroy ShaderModule f g'), graphicsPipeline := h'\<rparr>)"
    by (rule advances_destroy_shader [OF a6]) simp_all
  show ?thesis
    unfolding res using b1 b2 b3 b4 by simp
qed

lemma createSyncObjects_body_advances: "advances keeps_owned s (snd (createSyncObjects_body env i s))"
proof (cases "vkResult env (AtImageAvailableSemaphore i) = VK_SUCCESS")
  case False
  then show ?thesis
    by (simp add: createSyncObjects_body_def vk_defs Let_def advances_def keeps_owned_def)
next
  case a: True
  show ?thesis
  proof (cases "vkResult env (AtRenderFinishedSemaphore i) = VK_SUCCESS")
    case False
    then show ?thesis using a
      by (simp add: createSyncObjects_body_def vk_defs Let_def advances_def keeps_owned_def)
  next
    case b: True
    show ?thesis
    proof (cases "vkResult env (AtInFlightFence i) = VK_SUCCESS")
      case False
      then show ?thesis using a b
        by (simp add: createSyncObjects_body_def vk_defs Let_def advances_def keeps_owned_def)
    next
      case True
      then show ?thesis using a b
        by (simp add: createSyncObjects_body_def vk_defs Let_def advances_def keeps_owned_def)
    qed
  qed
qed

lemma createUniformBuffers_body_advances: "advances keeps_owned s (snd (createUniformBuffers_body env i s))"
proof (cases "vkResult env (AtUniformBuffer i) = VK_SUCCESS")
  case False
  then show ?thesis
    by (simp add: createUniformBuffers_body_def vk_defs Let_def advances_def keeps_owned_def)
next
  case a: True
  show ?thesis
  proof (cases "vkResult env (AtUniformMemory i) = VK_SUCCESS")
    case False
    then show ?thesis using a
      by (simp add: createUniformBuffers_body_def vk_defs Let_def advances_def keeps_owned_def)
  next
    case b: True
    show ?thesis
    proof (cases "vkResult env (AtMapMemory i) = VK_SUCCESS")
      case False
      then show ?thesis using a b
        by (simp add: createUniformBuffers_body_def vk_defs Let_def advances_def keeps_owned_def)
    next
      case True
      then show ?thesis using a b
        by (simp add: createUniformBuffers_body_def vk_defs Let_def advances_def keeps_owned_def)
    qed
  qed
qed

lemma createDescriptorSets_body_advances: "advances keeps_owned s (createDescriptorSets_body i s)"
  by (simp add: createDescriptorSets_body_def advances_def keeps_owned_def vk_defs)

lemma advances_update:
  "state t = state s \<Longrightarrow> currentFrame t = currentFrame s \<Longrightarrow> vkContext t = vkContext s \<Longrightarrow> gpu t = gpu s \<Longrightarrow>
   advances K t u \<Longrightarrow> advances K s u"
  by (simp add: advances_def)

lemma createFramebuffers_advances: "advances keeps_owned s (snd (createFramebuffers env s))"
  unfolding createFramebuffers_def
  by (rule advances_update [OF _ _ _ _ for_loop_advances]) (simp_all add: createFramebuffers_body_advances)

lemma createCommandPools_advances: "advances keeps_owned s (snd (createCommandPools N env s))"
  unfolding createCommandPools_def
  by (rule advances_update [OF _ _ _ _ for_loop_advances]) (simp_all add: createCommandPools_body_advances)

lemma createCommandBuffers_advances: "advances keeps_owned s (snd (createCommandBuffers N env s))"
  unfolding createCommandBuffers_def
  by (rule advances_update [OF _ _ _ _ for_loop_advances]) (simp_all add: createCommandBuffers_body_advances)

lemma createUniformBuffers_advances: "advances keeps_owned s (snd (createUniformBuffers N env s))"
  unfolding createUniformBuffers_def
  by (rule advances_update [OF _ _ _ _ for_loop_advances]) (simp_all add: createUniformBuffers_body_advances)

lemma createSyncObjects_advances: "advances keeps_owned s (snd (createSyncObjects N env s))"
  unfolding createSyncObjects_def
  by (rule advances_update [OF _ _ _ _ for_loop_advances]) (simp_all add: createSyncObjects_body_advances)

lemma createDescriptorSets_advances: "advances keeps_owned s (snd (createDescriptorSets N env s))"
proof (cases "vkResult env AtDescriptorSets = VK_SUCCESS")
  case True
  let ?hs = "map (\<lambda>k. Suc (nextHandle (gpu s) + k)) [0..<N]"
  let ?t = "s\<lparr>gpu := logCall (AllocateDescriptorSets VK_SUCCESS ?hs)
                 ((gpu s)\<lparr>nextHandle := nextHandle (gpu s) + N\<rparr>),
               descriptorSets := ?hs @ drop (length ?hs) (resize N (descriptorSets s))\<rparr>"
  have eq: "snd (createDescriptorSets N env s) = for_each N createDescriptorSets_body ?t"
    using True by (simp add: createDescriptorSets_def vkAllocateDescriptorSets_def Let_def)
  have "advances keeps_owned s ?t"
    by (simp add: advances_def keeps_owned_def logCall_def)
  moreover have "advances keeps_owned ?t (for_each N createDescriptorSets_body ?t)"
    by (rule for_each_advances) (rule createDescriptorSets_body_advances)
  ultimately show ?thesis unfolding eq by (rule advances_trans)
next
  case False
  then show ?thesis
    by (simp add: createDescriptorSets_def advances_def keeps_owned_def vk_defs Let_def)
qed

lemma createVertexBuffer_advances: "advances K s (snd (createVertexBuffer s))"
  by (simp add: createVertexBuffer_def advances_refl)

lemma build_steps_advance:
  "f \<in> set (build_steps N env) \<Longrightarrow> advances keeps_owned t (snd (f t))"
  unfolding build_steps_def
  using createDescriptorSetLayout_advances createRenderPass_advances createGraphicsPipeline_advances
    createFramebuffers_advances createCommandPools_advances createCommandBuffers_advances
    createUniformBuffers_advances createDescriptorPool_advances createDescriptorSets_advances
    createSyncObjects_advances createVertexBuffer_advances
  by auto

lemma run_build_steps_advances: "advances keeps_owned s (snd (run_steps (build_steps N env) s))"
  by (rule run_steps_advances) (rule build_steps_advance)

lemma initialize_guard:
  "state s \<noteq> UNINITIALIZED \<Longrightarrow> initialize N env s = (False, setError ''Pipeline is already initialized'' s)"
  by (simp add: initialize_def)

lemma initialize_run:
  "state s = UNINITIALIZED \<Longrightarrow>
   initialize N env s =
     (if fst (run_steps (build_steps N env) s)
      then (True, (snd (run_steps (build_steps N env) s))\<lparr>state := READY\<rparr>)
      else (False, snd (run_steps (build_steps N env) s)))"
  by (simp add: initialize_def split: prod.splits)

section \<open>When the driver grants every request\<close>

lemma for_loop_always:
  assumes "\<And>j t. fst (body j t)"
  shows "fst (for_loop i n body s)"
  by (rule for_loop_succeeds [where P = "\<lambda>_. True"]) (simp_all add: assms)

lemma build_steps_succeed:
  assumes ok: "\<And>site. vkResult env site = VK_SUCCESS"
  shows "f \<in> set (build_steps N env) \<Longrightarrow> fst (f t)"
proof -
  have 1: "fst (createDescriptorSetLayout env t)" for t
    by (simp add: createDescriptorSetLayout_def vk_defs ok)
  have 2: "fst (createRenderPass env t)" for t
    by (simp add: createRenderPass_def vk_defs ok)
  have 3: "fst (createGraphicsPipeline env t)" for t
    by (simp add: createGraphicsPipeline_def createShaderModule_def readFile_def vk_defs ok Let_def)
  have 4: "fst (createFramebuffers env t)" for t
    unfolding createFramebuffers_def
    by (rule for_loop_always) (simp add: createFramebuffers_body_def vk_defs ok)
  have 5: "fst (createCommandPools N env t)" for t
    unfolding createCommandPools_def
    by (rule for_loop_always) (simp add: createCommandPools_body_def vk_defs ok)
  have 6: "fst (createCommandBuffers N env t)" for t
    unfolding createCommandBuffers_def
    by (rule for_loop_always) (simp add: createCommandBuffers_body_def vk_defs ok)
  have 7: "fst (createUniformBuffers N env t)" for t
    unfolding createUniformBuffers_def
    by (rule for_loop_always) (simp add: createUniformBuffers_body_def vk_defs ok Let_def)
  have 8: "fst (createDescriptorPool env t)" for t
    by (simp add: createDescriptorPool_def vk_defs ok)
  have 9: "fst (createDescriptorSets N env t)" for t
    by (simp add: createDescriptorSets_def vk_defs ok Let_def)
  have 10: "fst (createSyncObjects N env t)" for t
    unfolding createSyncObjects_def
    by (rule for_loop_always) (simp add: createSyncObjects_body_def vk_defs ok Let_def)
  have 11: "fst (createVertexBuffer t)" for t
    by (simp add: createVertexBuffer_def)
  assume "f \<in> set (build_steps N env)"
  then show ?thesis
    unfolding build_steps_def using 1 2 3 4 5 6 7 8 9 10 11 by auto
qed

lemma initialize_succeeds:
  assumes "state s = UNINITIALIZED" and ok: "\<And>site. vkResult env site = VK_SUCCESS"
  shows "fst (initialize N env s)"
proof -
  have "fst (run_steps (build_steps N env) s)"
    by (rule run_steps_succeeds [where P = "\<lambda>_. True"]) (simp_all add: build_steps_succeed [OF ok])
  then show ?thesis using assms(1) by (simp add: initialize_run)
qed

lemma initialize_state:
  "state (snd (initialize N env s)) = (if fst (initialize N env s) then READY else state s)"
proof (cases "state s = UNINITIALIZED")
  case False
  then show ?thesis by (simp add: initialize_guard setError_def)
next
  case True
  have "state (snd (run_steps (build_steps N env) s)) = state s"
    using run_build_steps_advances [of s N env] by (simp add: advances_def)
  then show ?thesis using True by (simp add: initialize_run)
qed

lemma initialize_currentFrame: "currentFrame (snd (initialize N env s)) = currentFrame s"
proof (cases "state s = UNINITIALIZED")
  case False
  then show ?thesis by (simp add: initialize_guard setError_def)
next
  case True
  have "currentFrame (snd (run_steps (build_steps N env) s)) = currentFrame s"
    using run_build_steps_advances [of s N env] by (simp add: advances_def)
  then show ?thesis using True by (simp add: initialize_run)
qed

lemma env_ok_succeeds: "vkResult env_ok site = VK_SUCCESS"
  by (simp add: env_ok_def)

lemma new_pipeline_state: "state new_pipeline = UNINITIALIZED" "currentFrame new_pipeline = 0"
  by (simp_all add: new_pipeline_def Pipeline_ctor_def)

lemma ready_pipeline_ok: "fst (initialize 2 env_ok new_pipeline)"
  by (rule initialize_succeeds) (simp_all add: new_pipeline_state env_ok_succeeds)

lemma ready_pipeline_state: "state ready_pipeline = READY" "currentFrame ready_pipeline = 0"
  unfolding ready_pipeline_def
  using ready_pipeline_ok by (simp_all add: initialize_state initialize_currentFrame new_pipeline_state)

section \<open>Outcomes of endFrame and beginFrame\<close>

lemmas frame_defs = vkWaitForFences_def vkAcquireNextImageKHR_def vkResetFences_def vkResetCommandBuffer_def
  vkBeginCommandBuffer_def vkEndCommandBuffer_def vkQueueSubmit_def vkQueuePresentKHR_def
  updateUniformBuffer_def logCall_def setError_def

lemma endFrame_summary:
  fixes s :: Pipeline and env :: Env and N :: nat
  defines "e \<equiv> vkResult env AtEndCommandBuffer"
    and "q \<equiv> vkResult env AtQueueSubmit"
    and "p \<equiv> vkResult env AtQueuePresent"
    and "r \<equiv> endFrame N env s"
  assumes ready: "state s = READY"
  shows "fst r = (e = VK_SUCCESS \<and> q = VK_SUCCESS \<and> (p = VK_SUCCESS \<or> is_stale p))"
    and "currentFrame (snd r) = (if fst r then (currentFrame s + 1) mod N else currentFrame s)"
    and "state (snd r) = (if fst r \<and> is_stale p then RECREATING else READY)"
    and "lastError (snd r) =
           (if e \<noteq> VK_SUCCESS then ''Failed to record command buffer''
            else if q \<noteq> VK_SUCCESS then ''Failed to submit draw command buffer''
            else if p \<noteq> VK_SUCCESS \<and> \<not> is_stale p then ''Failed to present swap chain image''
            else lastError s)"
proof -
  consider (e) "e \<noteq> VK_SUCCESS"
    | (q) "e = VK_SUCCESS" "q \<noteq> VK_SUCCESS"
    | (stale) "e = VK_SUCCESS" "q = VK_SUCCESS" "p = VK_ERROR_OUT_OF_DATE_KHR \<or> p = VK_SUBOPTIMAL_KHR"
    | (ok) "e = VK_SUCCESS" "q = VK_SUCCESS" "p = VK_SUCCESS"
    | (p) "e = VK_SUCCESS" "q = VK_SUCCESS" "p \<noteq> VK_SUCCESS" "p \<noteq> VK_ERROR_OUT_OF_DATE_KHR" "p \<noteq> VK_SUBOPTIMAL_KHR"
    by blast
  then have "fst r = (e = VK_SUCCESS \<and> q = VK_SUCCESS \<and> (p = VK_SUCCESS \<or> is_stale p)) \<and>
    currentFrame (snd r) = (if fst r then (currentFrame s + 1) mod N else currentFrame s) \<and>
    state (snd r) = (if fst r \<and> is_stale p then RECREATING else READY) \<and>
    lastError (snd r) =
           (if e \<noteq> VK_SUCCESS then ''Failed to record command buffer''
            else if q \<noteq> VK_SUCCESS then ''Failed to submit draw command buffer''
            else if p \<noteq> VK_SUCCESS \<and> \<not> is_stale p then ''Failed to present swap chain image''
            else lastError s)"
  proof cases
    case e
    then show ?thesis using ready unfolding r_def e_def q_def p_def
      by (simp add: endFrame_def frame_defs Let_def is_stale_def)
  next
    case q
    then show ?thesis using ready unfolding r_def e_def q_def p_def
      by (simp add: endFrame_def frame_defs Let_def is_stale_def)
  next
    case stale
    then show ?thesis using ready unfolding r_def e_def q_def p_def
      by (auto simp add: endFrame_def frame_defs Let_def is_stale_def)
  next
    case ok
    then show ?thesis using ready unfolding r_def e_def q_def p_def
      by (simp add: endFrame_def frame_defs Let_def is_stale_def)
  next
    case p
    then show ?thesis using ready unfolding r_def e_def q_def p_def
      by (simp add: endFrame_def frame_defs Let_def is_stale_def)
  qed
  then show "fst r = (e = VK_SUCCESS \<and> q = VK_SUCCESS \<and> (p = VK_SUCCESS \<or> is_stale p))"
    and "currentFrame (snd r) = (if fst r then (currentFrame s + 1) mod N else currentFrame s)"
    and "state (snd r) = (if fst r \<and> is_stale p then RECREATING else READY)"
    and "lastError (snd r) =
           (if e \<noteq> VK_SUCCESS then ''Failed to record command buffer''
            else if q \<noteq> VK_SUCCESS then ''Failed to submit draw command buffer''
            else if p \<noteq> VK_SUCCESS \<and> \<not> is_stale p then ''Failed to present swap chain image''
            else lastError s)"
    by blast+
qed

lemma endFrame_not_ready:
  "state s \<noteq> READY \<Longrightarrow> endFrame N env s = (False, s\<lparr>lastError := ''Pipeline is not in ready state''\<rparr>)"
  by (simp add: endFrame_def setError_def)

lemma env_with_result: "vkResult (env_with site r) x = (if x = site then r else VK_SUCCESS)"
  by (simp add: env_with_def env_ok_def)

lemma run_steps_append:
  "run_steps (fs @ gs) s =
     (case run_steps fs s of (ok, s') \<Rightarrow> if ok then run_steps gs s' else (False, s'))"
  by (induction fs arbitrary: s) (auto split: prod.splits)

lemma createSyncObjects_body_ok:
  assumes "fst (createSyncObjects_body env i s)"
  shows "inFlightFences (snd (createSyncObjects_body env i s)) =
           (inFlightFences s)[i := nextHandle (gpu s) + 3]"
    and "imageAvailableSemaphores (snd (createSyncObjects_body env i s)) =
           (imageAvailableSemaphores s)[i := nextHandle (gpu s) + 1]"
    and "renderFinishedSemaphores (snd (createSyncObjects_body env i s)) =
           (renderFinishedSemaphores s)[i := nextHandle (gpu s) + 2]"
    and "nextHandle (gpu (snd (createSyncObjects_body env i s))) = nextHandle (gpu s) + 3"
    and "fenceStatus (gpu (snd (createSyncObjects_body env i s))) =
           (fenceStatus (gpu s))(nextHandle (gpu s) + 3 := Signaled)"
proof -
  have a: "vkResult env (AtImageAvailableSemaphore i) = VK_SUCCESS"
    using assms by (rule contrapos_pp) (simp add: createSyncObjects_body_def vk_defs Let_def)
  have b: "vkResult env (AtRenderFinishedSemaphore i) = VK_SUCCESS"
    using assms a by (rule_tac contrapos_pp) (simp_all add: createSyncObjects_body_def vk_defs Let_def)
  have c: "vkResult env (AtInFlightFence i) = VK_SUCCESS"
    using assms a b by (rule_tac contrapos_pp) (simp_all add: createSyncObjects_body_def vk_defs Let_def)
  show "inFlightFences (snd (createSyncObjects_body env i s)) =
           (inFlightFences s)[i := nextHandle (gpu s) + 3]"
    and "imageAvailableSemaphores (snd (createSyncObjects_body env i s)) =
           (imageAvailableSemaphores s)[i := nextHandle (gpu s) + 1]"
    and "renderFinishedSemaphores (snd (createSyncObjects_body env i s)) =
           (renderFinishedSemaphores s)[i := nextHandle (gpu s) + 2]"
    and "nextHandle (gpu (snd (createSyncObjects_body env i s))) = nextHandle (gpu s) + 3"
    and "fenceStatus (gpu (snd (createSyncObjects_body env i s))) =
           (fenceStatus (gpu s))(nextHandle (gpu s) + 3 := Signaled)"
    using a b c by (simp_all add: createSyncObjects_body_def vk_defs Let_def numeral_3_eq_3)
qed

lemma vkWaitForFences_returns:
  "fenceStatus g f \<noteq> Unsignaled \<Longrightarrow>
   vkWaitForFences f g =
     Some (g\<lparr>fenceStatus := (fenceStatus g)(f := Signaled), calls := calls g @ [WaitForFences f]\<rparr>)"
  by (cases "fenceStatus g f") (simp_all add: vkWaitForFences_def logCall_def fun_upd_idem)


lemmas begin_defs = vkAcquireNextImageKHR_def vkResetFences_def vkResetCommandBuffer_def
  vkBeginCommandBuffer_def updateUniformBuffer_def logCall_def setError_def



lemma beginFrame_out_of_date:
  assumes "state s = READY"
    and "fenceStatus (gpu s) (inFlightFences s ! currentFrame s) \<noteq> Unsignaled"
    and "vkResult env AtAcquireNextImage = VK_ERROR_OUT_OF_DATE_KHR"
  shows "beginFrame env s =
     Some (False,
       s\<lparr>gpu := (gpu s)\<lparr>fenceStatus := (fenceStatus (gpu s))(inFlightFences s ! currentFrame s := Signaled),
                        calls := calls (gpu s) @
                          [WaitForFences (inFlightFences s ! currentFrame s),
                           AcquireNextImage (imageAvailableSemaphores s ! currentFrame s)
                             VK_ERROR_OUT_OF_DATE_KHR]\<rparr>,
         state := RECREATING\<rparr>)"
  using assms by (simp add: beginFrame_def vkWaitForFences_returns begin_defs Let_def)




section \<open>The fences after initialize\<close>

lemma createSyncObjects_fences:
  assumes ok: "fst (createSyncObjects N env s)"
  defines "u \<equiv> snd (createSyncObjects N env s)"
  shows "length (inFlightFences u) = N"
    and "\<forall>m<N. 0 < inFlightFences u ! m \<and> fenceStatus (gpu u) (inFlightFences u ! m) = Signaled"
    and "distinct (inFlightFences u)"
proof -
  define Q :: "nat \<Rightarrow> Pipeline \<Rightarrow> bool" where "Q = (\<lambda>j t. length (inFlightFences t) = N \<and>
     (\<forall>m<j. inFlightFences t ! m \<le> nextHandle (gpu t) \<and> 0 < inFlightFences t ! m \<and>
             fenceStatus (gpu t) (inFlightFences t ! m) = Signaled) \<and>
     (\<forall>m<j. \<forall>m'<j. m \<noteq> m' \<longrightarrow> inFlightFences t ! m \<noteq> inFlightFences t ! m'))"
  let ?s0 = "s\<lparr>imageAvailableSemaphores := resize N (imageAvailableSemaphores s),
          renderFinishedSemaphores := resize N (renderFinishedSemaphores s),
          inFlightFences := resize N (inFlightFences s)\<rparr>"
  have step: "Q (Suc j) (snd (createSyncObjects_body env j t))"
    if "j < N" "Q j t" "fst (createSyncObjects_body env j t)" for j t
  proof -
    note b = createSyncObjects_body_ok [OF that(3)]
    have len: "length (inFlightFences t) = N" using that(2) by (simp add: Q_def)
    have old: "inFlightFences t ! m \<le> nextHandle (gpu t) \<and> 0 < inFlightFences t ! m \<and>
             fenceStatus (gpu t) (inFlightFences t ! m) = Signaled" if "m < j" for m
      using \<open>Q j t\<close> that by (simp add: Q_def)
    have dist: "inFlightFences t ! m \<noteq> inFlightFences t ! m'" if "m < j" "m' < j" "m \<noteq> m'" for m m'
      using \<open>Q j t\<close> that by (simp add: Q_def)
    show ?thesis
      unfolding Q_def b
      using len \<open>j < N\<close> old dist
      by (auto simp: nth_list_update less_Suc_eq dest!: old)
  qed
  have "Q 0 ?s0" by (simp add: Q_def resize_def)
  then have "Q N (snd (for_loop 0 N (createSyncObjects_body env) ?s0))"
    using ok unfolding createSyncObjects_def
    by (intro for_loop_indexed [where Q = Q]) (simp_all add: step)
  then have Q: "Q N u" by (simp add: u_def createSyncObjects_def)
  show "length (inFlightFences u) = N" using Q by (simp add: Q_def)
  show "\<forall>m<N. 0 < inFlightFences u ! m \<and> fenceStatus (gpu u) (inFlightFences u ! m) = Signaled"
    using Q by (simp add: Q_def)
  show "distinct (inFlightFences u)"
    using Q by (auto simp: Q_def distinct_conv_nth)
qed

lemma initialize_ok_uninit: "fst (initialize N env s) \<Longrightarrow> state s = UNINITIALIZED"
  by (rule contrapos_pp) (simp_all add: initialize_guard)

lemma build_steps_split:
  "build_steps N env =
     [createDescriptorSetLayout env, createRenderPass env, createGraphicsPipeline env,
      createFramebuffers env, createCommandPools N env, createCommandBuffers N env,
      createUniformBuffers N env, createDescriptorPool env, createDescriptorSets N env]
     @ [createSyncObjects N env, createVertexBuffer]"
  by (simp add: build_steps_def)

lemma initialize_ends_with_sync:
  assumes ok: "fst (initialize N env s)"
  shows "\<exists>t. fst (createSyncObjects N env t) \<and>
             snd (initialize N env s) = (snd (createSyncObjects N env t))\<lparr>state := READY\<rparr>"
proof -
  let ?front = "[createDescriptorSetLayout env, createRenderPass env, createGraphicsPipeline env,
      createFramebuffers env, createCommandPools N env, createCommandBuffers N env,
      createUniformBuffers N env, createDescriptorPool env, createDescriptorSets N env]"
  have un: "state s = UNINITIALIZED" by (rule initialize_ok_uninit [OF ok])
  have run: "fst (run_steps (build_steps N env) s)"
    using ok un by (simp add: initialize_run split: if_splits)
  obtain o1 t where f: "run_steps ?front s = (o1, t)" by (cases "run_steps ?front s")
  obtain o2 u where g: "createSyncObjects N env t = (o2, u)" by (cases "createSyncObjects N env t")
  have o1: o1 using run f unfolding build_steps_split run_steps_append by (simp split: if_splits)
  have o2: o2 using run f g o1 unfolding build_steps_split run_steps_append
    by (simp add: createVertexBuffer_def split: if_splits)
  have "snd (run_steps (build_steps N env) s) = u"
    using f g o1 o2 unfolding build_steps_split run_steps_append by (simp add: createVertexBuffer_def)
  then have "snd (initialize N env s) = u\<lparr>state := READY\<rparr>"
    using un run by (simp add: initialize_run)
  then show ?thesis using g o2 by (intro exI [of _ t]) simp
qed

lemma initialize_fences:
  assumes ok: "fst (initialize N env s)"
  defines "u \<equiv> snd (initialize N env s)"
  shows "length (inFlightFences u) = N"
    and "\<forall>m<N. 0 < inFlightFences u ! m \<and> fenceStatus (gpu u) (inFlightFences u ! m) = Signaled"
    and "distinct (inFlightFences u)"
proof -
  obtain t where t: "fst (createSyncObjects N env t)"
    "u = (snd (createSyncObjects N env t))\<lparr>state := READY\<rparr>"
    using initialize_ends_with_sync [OF ok] unfolding u_def by blast
  show "length (inFlightFences u) = N"
    and "\<forall>m<N. 0 < inFlightFences u ! m \<and> fenceStatus (gpu u) (inFlightFences u ! m) = Signaled"
    and "distinct (inFlightFences u)"
    using createSyncObjects_fences [OF t(1)] unfolding t(2) by simp_all
qed



lemma ready_pipeline_fences:
  "length (inFlightFences ready_pipeline) = 2"
  "m < 2 \<Longrightarrow> fenceStatus (gpu ready_pipeline) (inFlightFences ready_pipeline ! m) = Signaled"
  using initialize_fences(1,2) [OF ready_pipeline_ok] unfolding ready_pipeline_def by simp_all


section \<open>Where the state becomes RECREATING\<close>

lemma cleanup_state: "state (cleanup N s) = UNINITIALIZED"
  by (simp add: cleanup_def)






section \<open>A failed initialize\<close>








section \<open>The slot vectors through the build steps\<close>

lemma createCommandPools_body_others:
  "framebuffers (snd (createCommandPools_body env i s)) = framebuffers s \<and>
   commandBuffers (snd (createCommandPools_body env i s)) = commandBuffers s \<and>
   uniformBuffers (snd (createCommandPools_body env i s)) = uniformBuffers s \<and>
   uniformBuffersMemory (snd (createCommandPools_body env i s)) = uniformBuffersMemory s \<and>
   uniformBuffersMapped (snd (createCommandPools_body env i s)) = uniformBuffersMapped s \<and>
   descriptorSets (snd (createCommandPools_body env i s)) = descriptorSets s \<and>
   imageAvailableSemaphores (snd (createCommandPools_body env i s)) = imageAvailableSemaphores s \<and>
   renderFinishedSemaphores (snd (createCommandPools_body env i s)) = renderFinishedSemaphores s \<and>
   inFlightFences (snd (createCommandPools_body env i s)) = inFlightFences s"
  by (cases "vkResult env (AtCommandPool i) = VK_SUCCESS")
     (simp_all add: createCommandPools_body_def vk_defs Let_def)

lemma createCommandPools_others:
  "framebuffers (snd (createCommandPools N env s)) = framebuffers s \<and>
   commandBuffers (snd (createCommandPools N env s)) = commandBuffers s \<and>
   uniformBuffers (snd (createCommandPools N env s)) = uniformBuffers s \<and>
   uniformBuffersMemory (snd (createCommandPools N env s)) = uniformBuffersMemory s \<and>
   uniformBuffersMapped (snd (createCommandPools N env s)) = uniformBuffersMapped s \<and>
   descriptorSets (snd (createCommandPools N env s)) = descriptorSets s \<and>
   imageAvailableSemaphores (snd (createCommandPools N env s)) = imageAvailableSemaphores s \<and>
   renderFinishedSemaphores (snd (createCommandPools N env s)) = renderFinishedSemaphores s \<and>
   inFlightFences (snd (createCommandPools N env s)) = inFlightFences s"
  unfolding createCommandPools_def
  by (rule for_loop_inv [where P = "\<lambda>t. framebuffers t = framebuffers s \<and> commandBuffers t = commandBuffers s \<and> uniformBuffers t = uniformBuffers s \<and> uniformBuffersMemory t = uniformBuffersMemory s \<and> uniformBuffersMapped t = uniformBuffersMapped s \<and> descriptorSets t = descriptorSets s \<and> imageAvailableSemaphores t = imageAvailableSemaphores s \<and> renderFinishedSemaphores t = renderFinishedSemaphores s \<and> inFlightFences t = inFlightFences s"])
     (simp_all add: createCommandPools_body_others)

lemma createCommandBuffers_body_others:
  "framebuffers (snd (createCommandBuffers_body env i s)) = framebuffers s \<and>
   commandPools (snd (createCommandBuffers_body env i s)) = commandPools s \<and>
   uniformBuffers (snd (createCommandBuffers_body env i s)) = uniformBuffers s \<and>
   uniformBuffersMemory (snd (createCommandBuffers_body env i s)) = uniformBuffersMemory s \<and>
   uniformBuffersMapped (snd (createCommandBuffers_body env i s)) = uniformBuffersMapped s \<and>
   descriptorSets (snd (createCommandBuffers_body env i s)) = descriptorSets s \<and>
   imageAvailableSemaphores (snd (createCommandBuffers_body env i s)) = imageAvailableSemaphores s \<and>
   renderFinishedSemaphores (snd (createCommandBuffers_body env i s)) = renderFinishedSemaphores s \<and>
   inFlightFences (snd (createCommandBuffers_body env i s)) = inFlightFences s"
  by (cases "vkResult env (AtCommandBuffer i) = VK_SUCCESS")
     (simp_all add: createCommandBuffers_body_def vk_defs Let_def)

lemma createCommandBuffers_others:
  "framebuffers (snd (createCommandBuffers N env s)) = framebuffers s \<and>
   commandPools (snd (createCommandBuffers N env s)) = commandPools s \<and>
   uniformBuffers (snd (createCommandBuffers N env s)) = uniformBuffers s \<and>
   uniformBuffersMemory (snd (createCommandBuffers N env s)) = uniformBuffersMemory s \<and>
   uniformBuffersMapped (snd (createCommandBuffers N env s)) = uniformBuffersMapped s \<and>
   descriptorSets (snd (createCommandBuffers N env s)) = descriptorSets s \<and>
   imageAvailableSemaphores (snd (createCommandBuffers N env s)) = imageAvailableSemaphores s \<and>
   renderFinishedSemaphores (snd (createCommandBuffers N env s)) = renderFinishedSemaphores s \<and>
   inFlightFences (snd (createCommandBuffers N env s)) = inFlightFences s"
  unfolding createCommandBuffers_def
  by (rule for_loop_inv [where P = "\<lambda>t. framebuffers t = framebuffers s \<and> commandPools t = commandPools s \<and> uniformBuffers t = uniformBuffers s \<and> uniformBuffersMemory t = uniformBuffersMemory s \<and> uniformBuffersMapped t = uniformBuffersMapped s \<and> descriptorSets t = descriptorSets s \<and> imageAvailableSemaphores t = imageAvailableSemaphores s \<and> renderFinishedSemaphores t = renderFinishedSemaphores s \<and> inFlightFences t = inFlightFences s"])
     (simp_all add: createCommandBuffers_body_others)

lemma createUniformBuffers_body_others:
  "framebuffers (snd (createUniformBuffers_body env i s)) = framebuffers s \<and>
   commandPools (snd (createUniformBuffers_body env i s)) = commandPools s \<and>
   commandBuffers (snd (createUniformBuffers_body env i s)) = commandBuffers s \<and>
   descriptorSets (snd (createUniformBuffers_body env i s)) = descriptorSets s \<and>
   imageAvailableSemaphores (snd (createUniformBuffers_body env i s)) = imageAvailableSemaphores s \<and>
   renderFinishedSemaphores (snd (createUniformBuffers_body env i s)) = renderFinishedSemaphores s \<and>
   inFlightFences (snd (createUniformBuffers_body env i s)) = inFlightFences s"
proof (cases "vkResult env (AtUniformBuffer i) = VK_SUCCESS")
  case False
  then show ?thesis by (simp add: createUniformBuffers_body_def vk_defs Let_def)
next
  case a: True
  show ?thesis
  proof (cases "vkResult env (AtUniformMemory i) = VK_SUCCESS")
    case False
    then show ?thesis using a by (simp add: createUniformBuffers_body_def vk_defs Let_def)
  next
    case b: True
    show ?thesis
      using a b
      by (cases "vkResult env (AtMapMemory i) = VK_SUCCESS")
         (simp_all add: createUniformBuffers_body_def vk_defs Let_def)
  qed
qed

lemma createUniformBuffers_others:
  "framebuffers (snd (createUniformBuffers N env s)) = framebuffers s \<and>
   commandPools (snd (createUniformBuffers N env s)) = commandPools s \<and>
   commandBuffers (snd (createUniformBuffers N env s)) = commandBuffers s \<and>
   descriptorSets (snd (createUniformBuffers N env s)) = descriptorSets s \<and>
   imageAvailableSemaphores (snd (createUniformBuffers N env s)) = imageAvailableSemaphores s \<and>
   renderFinishedSemaphores (snd (createUniformBuffers N env s)) = renderFinishedSemaphores s \<and>
   inFlightFences (snd (createUniformBuffers N env s)) = inFlightFences s"
  unfolding createUniformBuffers_def
  by (rule for_loop_inv [where P = "\<lambda>t. framebuffers t = framebuffers s \<and> commandPools t = commandPools s \<and> commandBuffers t = commandBuffers s \<and> descriptorSets t = descriptorSets s \<and> imageAvailableSemaphores t = imageAvailableSemaphores s \<and> renderFinishedSemaphores t = renderFinishedSemaphores s \<and> inFlightFences t = inFlightFences s"])
     (simp_all add: createUniformBuffers_body_others)

lemma createSyncObjects_body_others:
  "framebuffers (snd (createSyncObjects_body env i s)) = framebuffers s \<and>
   commandPools (snd (createSyncObjects_body env i s)) = commandPools s \<and>
   commandBuffers (snd (createSyncObjects_body env i s)) = commandBuffers s \<and>
   uniformBuffers (snd (createSyncObjects_body env i s)) = uniformBuffers s \<and>
   uniformBuffersMemory (snd (createSyncObjects_body env i s)) = uniformBuffersMemory s \<and>
   uniformBuffersMapped (snd (createSyncObjects_body env i s)) = uniformBuffersMapped s \<and>
   descriptorSets (snd (createSyncObjects_body env i s)) = descriptorSets s"
proof (cases "vkResult env (AtImageAvailableSemaphore i) = VK_SUCCESS")
  case False
  then show ?thesis by (simp add: createSyncObjects_body_def vk_defs Let_def)
next
  case a: True
  show ?thesis
  proof (cases "vkResult env (AtRenderFinishedSemaphore i) = VK_SUCCESS")
    case False
    then show ?thesis using a by (simp add: createSyncObjects_body_def vk_defs Let_def)
  next
    case b: True
    show ?thesis
      using a b
      by (cases "vkResult env (AtInFlightFence i) = VK_SUCCESS")
         (simp_all add: createSyncObjects_body_def vk_defs Let_def)
  qed
qed

lemma createSyncObjects_others:
  "framebuffers (snd (createSyncObjects N env s)) = framebuffers s \<and>
   commandPools (snd (createSyncObjects N env s)) = commandPools s \<and>
   commandBuffers (snd (createSyncObjects N env s)) = commandBuffers s \<and>
   uniformBuffers (snd (createSyncObjects N env s)) = uniformBuffers s \<and>
   uniformBuffersMemory (snd (createSyncObjects N env s)) = uniformBuffersMemory s \<and>
   uniformBuffersMapped (snd (createSyncObjects N env s)) = uniformBuffersMapped s \<and>
   descriptorSets (snd (createSyncObjects N env s)) = descriptorSets s"
  unfolding createSyncObjects_def
  by (rule for_loop_inv [where P = "\<lambda>t. framebuffers t = framebuffers s \<and> commandPools t = commandPools s \<and> commandBuffers t = commandBuffers s \<and> uniformBuffers t = uniformBuffers s \<and> uniformBuffersMemory t = uniformBuffersMemory s \<and> uniformBuffersMapped t = uniformBuffersMapped s \<and> descriptorSets t = descriptorSets s"])
     (simp_all add: createSyncObjects_body_others)

lemma createDescriptorPool_others:
  "framebuffers (snd (createDescriptorPool env s)) = framebuffers s \<and>
   commandPools (snd (createDescriptorPool env s)) = commandPools s \<and>
   commandBuffers (snd (createDescriptorPool env s)) = commandBuffers s \<and>
   uniformBuffers (snd (createDescriptorPool env s)) = uniformBuffers s \<and>
   uniformBuffersMemory (snd (createDescriptorPool env s)) = uniformBuffersMemory s \<and>
   uniformBuffersMapped (snd (createDescriptorPool env s)) = uniformBuffersMapped s \<and>
   descriptorSets (snd (createDescriptorPool env s)) = descriptorSets s \<and>
   imageAvailableSemaphores (snd (createDescriptorPool env s)) = imageAvailableSemaphores s \<and>
   renderFinishedSemaphores (snd (createDescriptorPool env s)) = renderFinishedSemaphores s \<and>
   inFlightFences (snd (createDescriptorPool env s)) = inFlightFences s"
  by (cases "vkResult env AtDescriptorPool = VK_SUCCESS")
     (simp_all add: createDescriptorPool_def vk_defs Let_def)

lemma createDescriptorSets_loop_vectors:
  "(\<lambda>t. framebuffers t = framebuffers u \<and> commandPools t = commandPools u \<and> commandBuffers t = commandBuffers u \<and> uniformBuffers t = uniformBuffers u \<and> uniformBuffersMemory t = uniformBuffersMemory u \<and> uniformBuffersMapped t = uniformBuffersMapped u \<and> descriptorSets t = descriptorSets u \<and> imageAvailableSemaphores t = imageAvailableSemaphores u \<and> renderFinishedSemaphores t = renderFinishedSemaphores u \<and> inFlightFences t = inFlightFences u) (for_each N createDescriptorSets_body u)"
  by (rule for_each_inv) (simp_all add: createDescriptorSets_body_def)

lemma createDescriptorSets_others:
  "framebuffers (snd (createDescriptorSets N env s)) = framebuffers s \<and>
   commandPools (snd (createDescriptorSets N env s)) = commandPools s \<and>
   commandBuffers (snd (createDescriptorSets N env s)) = commandBuffers s \<and>
   uniformBuffers (snd (createDescriptorSets N env s)) = uniformBuffers s \<and>
   uniformBuffersMemory (snd (createDescriptorSets N env s)) = uniformBuffersMemory s \<and>
   uniformBuffersMapped (snd (createDescriptorSets N env s)) = uniformBuffersMapped s \<and>
   imageAvailableSemaphores (snd (createDescriptorSets N env s)) = imageAvailableSemaphores s \<and>
   renderFinishedSemaphores (snd (createDescriptorSets N env s)) = renderFinishedSemaphores s \<and>
   inFlightFences (snd (createDescriptorSets N env s)) = inFlightFences s"
proof (cases "vkResult env AtDescriptorSets = VK_SUCCESS")
  case False
  then show ?thesis by (simp add: createDescriptorSets_def vk_defs Let_def)
next
  case True
  then show ?thesis
    using createDescriptorSets_loop_vectors
    by (simp add: createDescriptorSets_def vk_defs Let_def)
qed

lemma filledI: "length xs = n \<Longrightarrow> (\<And>m. m < n \<Longrightarrow> xs ! m \<noteq> VK_NULL_HANDLE) \<Longrightarrow> filled n xs"
  by (auto simp: filled_def in_set_conv_nth)

lemma for_loop_fills:
  assumes upd: "\<And>j t. j < N \<Longrightarrow> fst (body j t) \<Longrightarrow> v (snd (body j t)) = (v t)[j := h t]"
    and nz: "\<And>t. h t \<noteq> VK_NULL_HANDLE"
    and len: "length (v s) = N"
    and ok: "fst (for_loop 0 N body s)"
  shows "filled N (v (snd (for_loop 0 N body s)))"
proof -
  define Q where "Q = (\<lambda>j t. length (v t) = N \<and> (\<forall>m<j. v t ! m \<noteq> VK_NULL_HANDLE))"
  have step: "Q (Suc j) (snd (body j t))" if lt: "j < N" and q: "Q j t" and b: "fst (body j t)" for j t
    using lt q upd [OF lt b] nz [of t] by (auto simp: Q_def nth_list_update less_Suc_eq)
  have "Q 0 s" using len by (simp add: Q_def)
  then have "Q N (snd (for_loop 0 N body s))"
    using ok by (intro for_loop_indexed [where Q = Q]) (simp_all add: step)
  then show ?thesis by (intro filledI) (simp_all add: Q_def)
qed

lemma length_resize [simp]: "length (resize n xs) = n"
  by (simp add: resize_def)

lemma createFramebuffers_filled:
  assumes "fst (createFramebuffers env s)"
  shows "filled (length (swapChainImages env)) (framebuffers (snd (createFramebuffers env s)))"
  using assms unfolding createFramebuffers_def
proof (rule for_loop_fills [where h = "\<lambda>t. Suc (nextHandle (gpu t))", rotated 3])
  fix j t assume "fst (createFramebuffers_body env j t)"
  then show "framebuffers (snd (createFramebuffers_body env j t)) = (framebuffers t)[j := Suc (nextHandle (gpu t))]"
    by (cases "vkResult env (AtFramebuffer j) = VK_SUCCESS")
       (simp_all add: createFramebuffers_body_def vk_defs Let_def)
qed simp_all

lemma createCommandPools_filled:
  assumes "fst (createCommandPools N env s)"
  shows "filled N (commandPools (snd (createCommandPools N env s)))"
  using assms unfolding createCommandPools_def
proof (rule for_loop_fills [where h = "\<lambda>t. Suc (nextHandle (gpu t))", rotated 3])
  fix j t assume "fst (createCommandPools_body env j t)"
  then show "commandPools (snd (createCommandPools_body env j t)) = (commandPools t)[j := Suc (nextHandle (gpu t))]"
    by (cases "vkResult env (AtCommandPool j) = VK_SUCCESS")
       (simp_all add: createCommandPools_body_def vk_defs Let_def)
qed simp_all

lemma createCommandBuffers_filled:
  assumes "fst (createCommandBuffers N env s)"
  shows "filled N (commandBuffers (snd (createCommandBuffers N env s)))"
  using assms unfolding createCommandBuffers_def
proof (rule for_loop_fills [where h = "\<lambda>t. Suc (nextHandle (gpu t))", rotated 3])
  fix j t assume "fst (createCommandBuffers_body env j t)"
  then show "commandBuffers (snd (createCommandBuffers_body env j t)) = (commandBuffers t)[j := Suc (nextHandle (gpu t))]"
    by (cases "vkResult env (AtCommandBuffer j) = VK_SUCCESS")
       (simp_all add: createCommandBuffers_body_def vk_defs Let_def)
qed simp_all

lemma createUniformBuffers_body_ok:
  assumes "fst (createUniformBuffers_body env i s)"
  shows "uniformBuffers (snd (createUniformBuffers_body env i s)) =
           (uniformBuffers s)[i := nextHandle (gpu s) + 1]"
    and "uniformBuffersMemory (snd (createUniformBuffers_body env i s)) =
           (uniformBuffersMemory s)[i := nextHandle (gpu s) + 2]"
    and "length (uniformBuffersMapped (snd (createUniformBuffers_body env i s))) =
           length (uniformBuffersMapped s)"
proof -
  have a: "vkResult env (AtUniformBuffer i) = VK_SUCCESS"
    using assms by (rule contrapos_pp) (simp add: createUniformBuffers_body_def vk_defs Let_def)
  have b: "vkResult env (AtUniformMemory i) = VK_SUCCESS"
    using assms a by (rule_tac contrapos_pp) (simp_all add: createUniformBuffers_body_def vk_defs Let_def)
  show "uniformBuffers (snd (createUniformBuffers_body env i s)) =
           (uniformBuffers s)[i := nextHandle (gpu s) + 1]"
    and "uniformBuffersMemory (snd (createUniformBuffers_body env i s)) =
           (uniformBuffersMemory s)[i := nextHandle (gpu s) + 2]"
    and "length (uniformBuffersMapped (snd (createUniformBuffers_body env i s))) =
           length (uniformBuffersMapped s)"
    using a b
    by (cases "vkResult env (AtMapMemory i) = VK_SUCCESS";
        simp add: createUniformBuffers_body_def vk_defs Let_def)+
qed

lemma createUniformBuffers_body_mapped_length:
  "length (uniformBuffersMapped (snd (createUniformBuffers_body env i s))) = length (uniformBuffersMapped s)"
proof (cases "vkResult env (AtUniformBuffer i) = VK_SUCCESS")
  case False
  then show ?thesis by (simp add: createUniformBuffers_body_def vk_defs Let_def)
next
  case a: True
  show ?thesis
  proof (cases "vkResult env (AtUniformMemory i) = VK_SUCCESS")
    case False
    then show ?thesis using a by (simp add: createUniformBuffers_body_def vk_defs Let_def)
  next
    case b: True
    show ?thesis
      using a b
      by (cases "vkResult env (AtMapMemory i) = VK_SUCCESS")
         (simp_all add: createUniformBuffers_body_def vk_defs Let_def)
  qed
qed

lemma createUniformBuffers_filled:
  assumes ok: "fst (createUniformBuffers N env s)"
  shows "filled N (uniformBuffers (snd (createUniformBuffers N env s)))"
    and "filled N (uniformBuffersMemory (snd (createUniformBuffers N env s)))"
    and "length (uniformBuffersMapped (snd (createUniformBuffers N env s))) = N"
proof -
  show "filled N (uniformBuffers (snd (createUniformBuffers N env s)))"
    using ok unfolding createUniformBuffers_def
    by (rule for_loop_fills [where h = "\<lambda>t. nextHandle (gpu t) + 1", rotated 3])
       (simp_all add: createUniformBuffers_body_ok)
  show "filled N (uniformBuffersMemory (snd (createUniformBuffers N env s)))"
    using ok unfolding createUniformBuffers_def
    by (rule for_loop_fills [where h = "\<lambda>t. nextHandle (gpu t) + 2", rotated 3])
       (simp_all add: createUniformBuffers_body_ok)
  show "length (uniformBuffersMapped (snd (createUniformBuffers N env s))) = N"
    unfolding createUniformBuffers_def
    by (rule for_loop_inv [where P = "\<lambda>t. length (uniformBuffersMapped t) = N"])
       (simp_all add: createUniformBuffers_body_mapped_length)
qed

lemma createSyncObjects_filled:
  assumes ok: "fst (createSyncObjects N env s)"
  shows "filled N (imageAvailableSemaphores (snd (createSyncObjects N env s)))"
    and "filled N (renderFinishedSemaphores (snd (createSyncObjects N env s)))"
    and "filled N (inFlightFences (snd (createSyncObjects N env s)))"
proof -
  show "filled N (imageAvailableSemaphores (snd (createSyncObjects N env s)))"
    using ok unfolding createSyncObjects_def
    by (rule for_loop_fills [where h = "\<lambda>t. nextHandle (gpu t) + 1", rotated 3])
       (simp_all add: createSyncObjects_body_ok)
  show "filled N (renderFinishedSemaphores (snd (createSyncObjects N env s)))"
    using ok unfolding createSyncObjects_def
    by (rule for_loop_fills [where h = "\<lambda>t. nextHandle (gpu t) + 2", rotated 3])
       (simp_all add: createSyncObjects_body_ok)
  show "filled N (inFlightFences (snd (createSyncObjects N env s)))"
    using ok unfolding createSyncObjects_def
    by (rule for_loop_fills [where h = "\<lambda>t. nextHandle (gpu t) + 3", rotated 3])
       (simp_all add: createSyncObjects_body_ok)
qed

lemma createDescriptorSets_filled:
  assumes ok: "fst (createDescriptorSets N env s)"
  shows "filled N (descriptorSets (snd (createDescriptorSets N env s)))"
proof -
  have a: "vkResult env AtDescriptorSets = VK_SUCCESS"
    using ok by (rule contrapos_pp) (simp add: createDescriptorSets_def vk_defs Let_def)
  have "descriptorSets (snd (createDescriptorSets N env s)) =
          map (\<lambda>k. Suc (nextHandle (gpu s) + k)) [0..<N]"
    using a createDescriptorSets_loop_vectors
    by (simp add: createDescriptorSets_def vk_defs Let_def)
  then show ?thesis by (auto simp: filled_def)
qed

lemma ensures_run_steps_Nil: "ensures P (run_steps []) P"
  by (simp add: ensures_def)

lemma ensures_run_steps_Cons:
  assumes "ensures P f Q" and "ensures Q (run_steps fs) R"
  shows "ensures P (run_steps (f # fs)) R"
  unfolding ensures_def
proof (intro allI impI)
  fix s assume a: "P s \<and> fst (run_steps (f # fs) s)"
  obtain ok s' where b: "f s = (ok, s')" by (cases "f s")
  have ok: ok using a b by (simp split: if_splits)
  have "Q s'" using assms(1) a b ok by (auto simp: ensures_def)
  moreover have "fst (run_steps fs s')" using a b ok by simp
  ultimately have "R (snd (run_steps fs s'))" using assms(2) by (auto simp: ensures_def)
  then show "R (snd (run_steps (f # fs) s))" using b ok by simp
qed

lemma built_early: "k \<le> 3 \<Longrightarrow> built k N n t"
  by (simp add: built_def)

lemma ensures_early: "k \<le> 3 \<Longrightarrow> ensures P f (built k N n)"
  by (simp add: ensures_def built_early)

lemma ensures_createFramebuffers:
  "ensures (built 3 N (length (swapChainImages env))) (createFramebuffers env)
     (built 4 N (length (swapChainImages env)))"
  by (simp add: ensures_def built_def createFramebuffers_filled)

lemma ensures_createCommandPools: "ensures (built 4 N n) (createCommandPools N env) (built 5 N n)"
  by (simp add: ensures_def built_def createCommandPools_filled createCommandPools_others)

lemma ensures_createCommandBuffers: "ensures (built 5 N n) (createCommandBuffers N env) (built 6 N n)"
  by (simp add: ensures_def built_def createCommandBuffers_filled createCommandBuffers_others)

lemma ensures_createUniformBuffers: "ensures (built 6 N n) (createUniformBuffers N env) (built 7 N n)"
  by (simp add: ensures_def built_def createUniformBuffers_filled createUniformBuffers_others)

lemma ensures_createDescriptorPool: "ensures (built 7 N n) (createDescriptorPool env) (built 8 N n)"
  by (simp add: ensures_def built_def createDescriptorPool_others)

lemma ensures_createDescriptorSets: "ensures (built 8 N n) (createDescriptorSets N env) (built 9 N n)"
  by (simp add: ensures_def built_def createDescriptorSets_filled createDescriptorSets_others)

lemma ensures_createSyncObjects: "ensures (built 9 N n) (createSyncObjects N env) (built 10 N n)"
  by (simp add: ensures_def built_def createSyncObjects_filled createSyncObjects_others)

lemma ensures_createVertexBuffer: "ensures (built 10 N n) createVertexBuffer (built 10 N n)"
  by (simp add: ensures_def createVertexBuffer_def)

lemma ensures_build_steps:
  "ensures (\<lambda>t. True) (run_steps (build_steps N env)) (built 10 N (length (swapChainImages env)))"
  unfolding build_steps_def
  apply (rule ensures_run_steps_Cons [where Q = "built 1 N (length (swapChainImages env))"])
   apply (rule ensures_early, simp)
  apply (rule ensures_run_steps_Cons [where Q = "built 2 N (length (swapChainImages env))"])
   apply (rule ensures_early, simp)
  apply (rule ensures_run_steps_Cons [where Q = "built 3 N (length (swapChainImages env))"])
   apply (rule ensures_early, simp)
  apply (rule ensures_run_steps_Cons [OF ensures_createFramebuffers])
  apply (rule ensures_run_steps_Cons [OF ensures_createCommandPools])
  apply (rule ensures_run_steps_Cons [OF ensures_createCommandBuffers])
  apply (rule ensures_run_steps_Cons [OF ensures_createUniformBuffers])
  apply (rule ensures_run_steps_Cons [OF ensures_createDescriptorPool])
  apply (rule ensures_run_steps_Cons [OF ensures_createDescriptorSets])
  apply (rule ensures_run_steps_Cons [OF ensures_createSyncObjects])
  apply (rule ensures_run_steps_Cons [OF ensures_createVertexBuffer])
  apply (rule ensures_run_steps_Nil)
  done

lemma initialize_built:
  assumes ok: "fst (initialize N env s)"
  shows "built 10 N (length (swapChainImages env)) (snd (initialize N env s))"
proof -
  have un: "state s = UNINITIALIZED" by (rule initialize_ok_uninit [OF ok])
  have run: "fst (run_steps (build_steps N env) s)"
    using ok un by (simp add: initialize_run del: run_steps.simps split: if_splits)
  have "built 10 N (length (swapChainImages env)) (snd (run_steps (build_steps N env) s))"
    using ensures_build_steps [of N env] run by (simp add: ensures_def del: run_steps.simps)
  then show ?thesis
    using un run by (simp add: initialize_run built_def del: run_steps.simps)
qed

section \<open>The calls of cleanup\<close>

lemma fold_logs:
  assumes "\<And>x g. body x g = g\<lparr>calls := calls g @ f x\<rparr>"
  shows "fold body xs g = g\<lparr>calls := calls g @ concat (map f xs)\<rparr>"
  by (induction xs arbitrary: g) (simp_all add: assms)

lemma for_each_logs:
  assumes "\<And>x g. body x g = g\<lparr>calls := calls g @ f x\<rparr>"
  shows "for_each n body g = g\<lparr>calls := calls g @ concat (map f [0..<n])\<rparr>"
  unfolding for_each_def by (rule fold_logs) (rule assms)

lemma cleanup_uniformBuffers_body_logs:
  "cleanup_uniformBuffers_body s i g =
     g\<lparr>calls := calls g @
        uniformBuffers_release_calls (uniformBuffers s) (uniformBuffersMemory s) (uniformBuffersMapped s) i\<rparr>"
  by (simp add: cleanup_uniformBuffers_body_def uniformBuffers_release_calls_def logCall_def vkDestroy_def Let_def)

lemma cleanup_syncObjects_body_logs:
  "cleanup_syncObjects_body s i g =
     g\<lparr>calls := calls g @
        syncObjects_release_calls (imageAvailableSemaphores s) (renderFinishedSemaphores s) (inFlightFences s) i\<rparr>"
  by (simp add: cleanup_syncObjects_body_def syncObjects_release_calls_def logCall_def vkDestroy_def Let_def)

lemma cleanup_commandPools_body_logs:
  "cleanup_commandPools_body s i g = g\<lparr>calls := calls g @ commandPools_release_calls (commandPools s) i\<rparr>"
  by (simp add: cleanup_commandPools_body_def commandPools_release_calls_def logCall_def vkDestroy_def)

lemma destroyFramebuffer_logs:
  "destroyFramebuffer fb g = g\<lparr>calls := calls g @ (if fb \<noteq> VK_NULL_HANDLE then [Destroy Framebuffer fb] else [])\<rparr>"
  by (simp add: destroyFramebuffer_def logCall_def vkDestroy_def)

lemma fold_destroyFramebuffer:
  "fold destroyFramebuffer fbs g = g\<lparr>calls := calls g @ framebuffers_release_calls fbs\<rparr>"
proof -
  have "concat (map (\<lambda>fb. if fb \<noteq> VK_NULL_HANDLE then [Destroy Framebuffer fb] else []) fbs)
        = framebuffers_release_calls fbs"
    by (induction fbs) (simp_all add: framebuffers_release_calls_def)
  then show ?thesis
    using fold_logs [where body = destroyFramebuffer
        and f = "\<lambda>fb. if fb \<noteq> VK_NULL_HANDLE then [Destroy Framebuffer fb] else []", OF destroyFramebuffer_logs]
    by simp
qed

lemma waitIdle_logs:
  "waitIdle s =
     s\<lparr>gpu := (gpu s)\<lparr>fenceStatus := (if waitIdle_calls s = [] then fenceStatus (gpu s)
                                        else (\<lambda>h. if fenceStatus (gpu s) h = Pending then Signaled
                                                  else fenceStatus (gpu s) h)),
                      calls := calls (gpu s) @ waitIdle_calls s\<rparr>\<rparr>"
  by (simp add: waitIdle_def waitIdle_calls_def vkDeviceWaitIdle_def logCall_def split: option.splits)

lemma cleanup_uniformBuffers_logs:
  "cleanup_uniformBuffers s =
     s\<lparr>gpu := (gpu s)\<lparr>calls := calls (gpu s) @
          concat (map (uniformBuffers_release_calls (uniformBuffers s) (uniformBuffersMemory s)
                    (uniformBuffersMapped s)) [0..<length (uniformBuffers s)])\<rparr>,
       uniformBuffers := [], uniformBuffersMemory := [], uniformBuffersMapped := []\<rparr>"
  by (simp add: cleanup_uniformBuffers_def for_each_logs [OF cleanup_uniformBuffers_body_logs])

lemma cleanup_syncObjects_logs:
  "cleanup_syncObjects N s =
     s\<lparr>gpu := (gpu s)\<lparr>calls := calls (gpu s) @
          concat (map (syncObjects_release_calls (imageAvailableSemaphores s) (renderFinishedSemaphores s)
                    (inFlightFences s)) [0..<N])\<rparr>\<rparr>"
  by (simp add: cleanup_syncObjects_def for_each_logs [OF cleanup_syncObjects_body_logs])

lemma cleanup_commandPools_logs:
  "cleanup_commandPools s =
     s\<lparr>gpu := (gpu s)\<lparr>calls := calls (gpu s) @
          concat (map (commandPools_release_calls (commandPools s)) [0..<length (commandPools s)])\<rparr>\<rparr>"
  by (simp add: cleanup_commandPools_def for_each_logs [OF cleanup_commandPools_body_logs])

lemma cleanup_framebuffers_logs:
  "cleanup_framebuffers s =
     s\<lparr>gpu := (gpu s)\<lparr>calls := calls (gpu s) @ framebuffers_release_calls (framebuffers s)\<rparr>,
       framebuffers := []\<rparr>"
  by (simp add: cleanup_framebuffers_def fold_destroyFramebuffer Let_def)

lemma cleanup_single_logs:
  "cleanup_descriptorPool s =
     s\<lparr>gpu := (gpu s)\<lparr>calls := calls (gpu s) @ destroy_if_set DescriptorPool (descriptorPool s)\<rparr>,
       descriptorPool := VK_NULL_HANDLE\<rparr>"
  "cleanup_descriptorSetLayout s =
     s\<lparr>gpu := (gpu s)\<lparr>calls := calls (gpu s) @ destroy_if_set DescriptorSetLayout (descriptorSetLayout s)\<rparr>,
       descriptorSetLayout := VK_NULL_HANDLE\<rparr>"
  "cleanup_vertexBuffer s =
     s\<lparr>gpu := (gpu s)\<lparr>calls := calls (gpu s) @ destroy_if_set Buffer (vertexBuffer s)
                          @ destroy_if_set DeviceMemory (vertexBufferMemory s)\<rparr>,
       vertexBuffer := VK_NULL_HANDLE, vertexBufferMemory := VK_NULL_HANDLE\<rparr>"
  "cleanup_graphicsPipeline s =
     s\<lparr>gpu := (gpu s)\<lparr>calls := calls (gpu s) @ destroy_if_set GraphicsPipeline (graphicsPipeline s)\<rparr>,
       graphicsPipeline := VK_NULL_HANDLE\<rparr>"
  "cleanup_pipelineLayout s =
     s\<lparr>gpu := (gpu s)\<lparr>calls := calls (gpu s) @ destroy_if_set PipelineLayout (pipelineLayout s)\<rparr>,
       pipelineLayout := VK_NULL_HANDLE\<rparr>"
  "cleanup_renderPass s =
     s\<lparr>gpu := (gpu s)\<lparr>calls := calls (gpu s) @ destroy_if_set RenderPass (renderPass s)\<rparr>,
       renderPass := VK_NULL_HANDLE\<rparr>"
  by (simp_all add: cleanup_descriptorPool_def cleanup_descriptorSetLayout_def cleanup_vertexBuffer_def
      cleanup_graphicsPipeline_def cleanup_pipelineLayout_def cleanup_renderPass_def
      destroy_if_set_def vkDestroy_def logCall_def Let_def)

lemmas cleanup_phase_logs = waitIdle_logs cleanup_uniformBuffers_logs cleanup_single_logs
  cleanup_syncObjects_logs cleanup_commandPools_logs cleanup_framebuffers_logs

lemma cleanup_logs:
  "calls (gpu (cleanup N s)) = calls (gpu s) @ cleanup_calls N s"
  by (simp add: cleanup_def cleanup_phase_logs cleanup_clearVectors_def cleanup_calls_def)

lemma cleanup_fields:
  "holds_nothing (cleanup N s)"
  "vkContext (cleanup N s) = vkContext s"
  "currentFrame (cleanup N s) = currentFrame s"
  "lastError (cleanup N s) = lastError s"
  "nextHandle (gpu (cleanup N s)) = nextHandle (gpu s)"
  by (simp_all add: cleanup_def cleanup_phase_logs cleanup_clearVectors_def holds_nothing_def)

lemma cleanup_of_nothing:
  assumes "holds_nothing s"
  shows "cleanup N s = (waitIdle s)\<lparr>state := UNINITIALIZED\<rparr>"
proof -
  have sy: "concat (map (syncObjects_release_calls [] [] []) [0..<N]) = []"
    by (simp add: syncObjects_release_calls_def)
  show ?thesis
    using assms
    by (simp add: cleanup_def cleanup_phase_logs cleanup_clearVectors_def holds_nothing_def
        destroy_if_set_def framebuffers_release_calls_def sy)
qed

lemma before_append:
  "before P Q (xs @ ys) \<longleftrightarrow> before P Q xs \<and> before P Q ys \<and> (list_ex Q xs \<longrightarrow> \<not> list_ex P ys)"
  by (induction xs) auto

lemma before_without_first: "\<not> list_ex P xs \<Longrightarrow> before P Q xs"
  by (induction xs) auto

lemma before_without_second: "\<not> list_ex Q xs \<Longrightarrow> before P Q xs"
  by (induction xs) auto

lemma list_ex_destroy_if_set: "list_ex P (destroy_if_set k h) \<longleftrightarrow> h \<noteq> VK_NULL_HANDLE \<and> P (Destroy k h)"
  by (simp add: destroy_if_set_def)

lemma before_destroy_if_set: "before P Q (destroy_if_set k h)"
  by (simp add: destroy_if_set_def)

lemma list_ex_waitIdle_calls: "list_ex P (waitIdle_calls s) \<longleftrightarrow> waitIdle_calls s \<noteq> [] \<and> P DeviceWaitIdle"
  by (simp add: waitIdle_calls_def split: option.splits)

lemma before_waitIdle_calls: "before P Q (waitIdle_calls s)"
  by (simp add: waitIdle_calls_def split: option.splits)

lemma list_ex_framebuffers_release:
  "list_ex P (framebuffers_release_calls fbs) \<longleftrightarrow> (\<exists>fb\<in>set fbs. fb \<noteq> VK_NULL_HANDLE \<and> P (Destroy Framebuffer fb))"
  by (auto simp: framebuffers_release_calls_def list_ex_iff)

lemma list_ex_commandPools_release:
  "list_ex P (concat (map (commandPools_release_calls cp) xs)) \<longleftrightarrow>
     (\<exists>i\<in>set xs. cp ! i \<noteq> VK_NULL_HANDLE \<and> P (Destroy CommandPool (cp ! i)))"
  by (auto simp: commandPools_release_calls_def list_ex_iff split: if_splits)

lemma list_ex_syncObjects_release:
  "list_ex P (concat (map (syncObjects_release_calls ia rf fe) xs)) \<longleftrightarrow>
     (\<exists>i\<in>set xs. (i < length ia \<and> P (Destroy Semaphore (ia ! i))) \<or>
                  (i < length rf \<and> P (Destroy Semaphore (rf ! i))) \<or>
                  (i < length fe \<and> P (Destroy Fence (fe ! i))))"
  by (induction xs) (auto simp: syncObjects_release_calls_def)

lemma list_ex_uniformBuffers_release:
  "list_ex P (concat (map (uniformBuffers_release_calls ub um up) xs)) \<longleftrightarrow>
     (\<exists>i\<in>set xs. (up ! i \<noteq> VK_NULL_HANDLE \<and> P (UnmapMemory (um ! i))) \<or>
                  (ub ! i \<noteq> VK_NULL_HANDLE \<and> P (Destroy Buffer (ub ! i))) \<or>
                  (um ! i \<noteq> VK_NULL_HANDLE \<and> P (Destroy DeviceMemory (um ! i))))"
  by (induction xs) (auto simp: uniformBuffers_release_calls_def)

lemmas segment_rules = before_append list_ex_destroy_if_set before_destroy_if_set
  list_ex_waitIdle_calls before_waitIdle_calls list_ex_framebuffers_release
  list_ex_commandPools_release list_ex_syncObjects_release list_ex_uniformBuffers_release

lemma cleanup_pool_before_layout:
  "before (destroys DescriptorPool) (destroys DescriptorSetLayout) (cleanup_calls N s)"
  by (simp add: cleanup_calls_def segment_rules before_without_first)

lemma cleanup_framebuffers_before_renderPass:
  "before (destroys Framebuffer) (destroys RenderPass) (cleanup_calls N s)"
  by (simp add: cleanup_calls_def segment_rules before_without_second)

lemma cleanup_buffers_before_sync:
  "before releases_buffer releases_sync (cleanup_calls N s)"
  by (simp add: cleanup_calls_def segment_rules before_without_first before_without_second)

lemma cleanup_sync_before_commandPools:
  "before releases_sync (destroys CommandPool) (cleanup_calls N s)"
  by (simp add: cleanup_calls_def segment_rules before_without_first before_without_second)

lemma in_set_list_ex: "c \<in> set xs \<longleftrightarrow> list_ex (\<lambda>x. x = c) xs"
  by (auto simp: list_ex_iff)

lemma cleanup_destroys_owned:
  assumes b: "slots_bounded N s" and o: "(k, h) \<in> set (owned_objects s)"
  shows "Destroy k h \<in> set (cleanup_calls N s)"
proof -
  have nz: "h \<noteq> VK_NULL_HANDLE" using o unfolding owned_objects_def set_filter by simp
  have m: "(k, h) \<in> set ([(DescriptorPool, descriptorPool s), (DescriptorSetLayout, descriptorSetLayout s),
         (Buffer, vertexBuffer s), (DeviceMemory, vertexBufferMemory s),
         (GraphicsPipeline, graphicsPipeline s), (PipelineLayout, pipelineLayout s),
         (RenderPass, renderPass s)]) \<or>
      (k = Buffer \<and> h \<in> set (uniformBuffers s)) \<or>
      (k = DeviceMemory \<and> h \<in> set (uniformBuffersMemory s)) \<or>
      (k = Semaphore \<and> h \<in> set (imageAvailableSemaphores s)) \<or>
      (k = Semaphore \<and> h \<in> set (renderFinishedSemaphores s)) \<or>
      (k = Fence \<and> h \<in> set (inFlightFences s)) \<or>
      (k = CommandPool \<and> h \<in> set (commandPools s)) \<or>
      (k = Framebuffer \<and> h \<in> set (framebuffers s))"
    using o unfolding owned_objects_def set_filter by auto
  have ex: "list_ex (\<lambda>x. x = Destroy k h) (cleanup_calls N s)"
    using m
  proof (elim disjE conjE)
    assume "(k, h) \<in> set ([(DescriptorPool, descriptorPool s), (DescriptorSetLayout, descriptorSetLayout s),
         (Buffer, vertexBuffer s), (DeviceMemory, vertexBufferMemory s),
         (GraphicsPipeline, graphicsPipeline s), (PipelineLayout, pipelineLayout s),
         (RenderPass, renderPass s)])"
    then show ?thesis using nz
      by (auto simp: cleanup_calls_def list_ex_destroy_if_set)
  next
    assume "k = Buffer" "h \<in> set (uniformBuffers s)"
    then obtain i where "i < length (uniformBuffers s)" "uniformBuffers s ! i = h"
      by (auto simp: in_set_conv_nth)
    then show ?thesis using nz \<open>k = Buffer\<close>
      by (auto simp: cleanup_calls_def list_ex_uniformBuffers_release intro!: bexI [of _ i])
  next
    assume "k = DeviceMemory" "h \<in> set (uniformBuffersMemory s)"
    then obtain i where "i < length (uniformBuffersMemory s)" "uniformBuffersMemory s ! i = h"
      by (auto simp: in_set_conv_nth)
    then show ?thesis using nz \<open>k = DeviceMemory\<close> b
      by (auto simp: cleanup_calls_def list_ex_uniformBuffers_release slots_bounded_def intro!: bexI [of _ i])
  next
    assume "k = Semaphore" "h \<in> set (imageAvailableSemaphores s)"
    then obtain i where "i < length (imageAvailableSemaphores s)" "imageAvailableSemaphores s ! i = h"
      by (auto simp: in_set_conv_nth)
    then show ?thesis using nz \<open>k = Semaphore\<close> b
      by (auto simp: cleanup_calls_def list_ex_syncObjects_release slots_bounded_def intro!: bexI [of _ i])
  next
    assume "k = Semaphore" "h \<in> set (renderFinishedSemaphores s)"
    then obtain i where "i < length (renderFinishedSemaphores s)" "renderFinishedSemaphores s ! i = h"
      by (auto simp: in_set_conv_nth)
    then show ?thesis using nz \<open>k = Semaphore\<close> b
      by (auto simp: cleanup_calls_def list_ex_syncObjects_release slots_bounded_def intro!: bexI [of _ i])
  next
    assume "k = Fence" "h \<in> set (inFlightFences s)"
    then obtain i where "i < length (inFlightFences s)" "inFlightFences s ! i = h"
      by (auto simp: in_set_conv_nth)
    then show ?thesis using nz \<open>k = Fence\<close> b
      by (auto simp: cleanup_calls_def list_ex_syncObjects_release slots_bounded_def intro!: bexI [of _ i])
  next
    assume "k = CommandPool" "h \<in> set (commandPools s)"
    then obtain i where "i < length (commandPools s)" "commandPools s ! i = h"
      by (auto simp: in_set_conv_nth)
    then show ?thesis using nz \<open>k = CommandPool\<close>
      by (auto simp: cleanup_calls_def list_ex_commandPools_release intro!: bexI [of _ i])
  next
    assume "k = Framebuffer" "h \<in> set (framebuffers s)"
    then show ?thesis using nz
      by (auto simp: cleanup_calls_def list_ex_framebuffers_release)
  qed
  then show ?thesis by (simp add: in_set_list_ex)
qed

lemma new_calls_cleanup: "new_calls s (cleanup N s) = cleanup_calls N s"
  by (simp add: new_calls_def cleanup_logs)

lemma waitIdle_calls_valid:
  "vkContext s = Some d \<Longrightarrow> d \<noteq> VK_NULL_HANDLE \<Longrightarrow> waitIdle_calls s = [DeviceWaitIdle]"
  by (simp add: waitIdle_calls_def)

lemma cleanup_waits_first:
  "vkContext s = Some d \<Longrightarrow> d \<noteq> VK_NULL_HANDLE \<Longrightarrow> take 1 (cleanup_calls N s) = [DeviceWaitIdle]"
  by (simp add: cleanup_calls_def waitIdle_calls_valid)

lemma cleanup_calls_of_nothing: "holds_nothing s \<Longrightarrow> cleanup_calls N s = waitIdle_calls s"
  by (simp add: cleanup_calls_def holds_nothing_def destroy_if_set_def framebuffers_release_calls_def
      syncObjects_release_calls_def)

lemma waitIdle_state: "state (waitIdle s) = state s" "vkContext (waitIdle s) = vkContext s"
  by (simp_all add: waitIdle_def split: option.splits)

lemma state_update_same: "state t = v \<Longrightarrow> t\<lparr>state := v\<rparr> = t"
  by auto

lemma cleanup_twice: "cleanup N (cleanup N s) = waitIdle (cleanup N s)"
proof -
  have "cleanup N (cleanup N s) = (waitIdle (cleanup N s))\<lparr>state := UNINITIALIZED\<rparr>"
    by (rule cleanup_of_nothing) (rule cleanup_fields(1))
  moreover have "state (waitIdle (cleanup N s)) = UNINITIALIZED"
    by (simp add: waitIdle_state cleanup_state)
  ultimately show ?thesis by (simp add: state_update_same)
qed

lemma waitIdle_calls_cleanup: "waitIdle_calls (cleanup N s) = waitIdle_calls s"
  by (simp add: waitIdle_calls_def cleanup_fields)

lemma before_suffix: "before P Q (xs @ ys) \<Longrightarrow> before P Q ys"
  by (simp add: before_append)

lemma before_split: "before P Q (xs @ ys) \<Longrightarrow> list_ex Q xs \<Longrightarrow> \<not> list_ex P ys"
  by (simp add: before_append)

lemma env_ok_images: "length (swapChainImages env_ok) = 3"
  by (simp add: env_ok_def)

lemma ready_pipeline_built: "built 10 2 3 ready_pipeline"
  using initialize_built [OF ready_pipeline_ok] by (simp only: ready_pipeline_def env_ok_images)

lemma filled_nth: "filled n xs \<Longrightarrow> i < n \<Longrightarrow> xs ! i \<noteq> VK_NULL_HANDLE"
  by (auto simp: filled_def in_set_conv_nth)

lemma ready_pipeline_sync_then_pool:
  "\<not> before (destroys CommandPool) releases_sync (cleanup_calls 2 ready_pipeline)"
proof
  assume a: "before (destroys CommandPool) releases_sync (cleanup_calls 2 ready_pipeline)"
  have fe: "length (inFlightFences ready_pipeline) = 2"
    and cp: "length (commandPools ready_pipeline) = 2" "commandPools ready_pipeline ! 0 \<noteq> VK_NULL_HANDLE"
    using ready_pipeline_built filled_nth [of 2 "commandPools ready_pipeline" 0]
    by (simp_all add: built_def filled_def)
  let ?SY = "concat (map (syncObjects_release_calls (imageAvailableSemaphores ready_pipeline)
      (renderFinishedSemaphores ready_pipeline) (inFlightFences ready_pipeline)) [0..<2])"
  let ?CP = "concat (map (commandPools_release_calls (commandPools ready_pipeline))
      [0..<length (commandPools ready_pipeline)])"
  let ?rest = "framebuffers_release_calls (framebuffers ready_pipeline) @
     destroy_if_set GraphicsPipeline (graphicsPipeline ready_pipeline) @
     destroy_if_set PipelineLayout (pipelineLayout ready_pipeline) @
     destroy_if_set RenderPass (renderPass ready_pipeline)"
  have "before (destroys CommandPool) releases_sync (?SY @ ?CP @ ?rest)"
    by (rule a [unfolded cleanup_calls_def, THEN before_suffix, THEN before_suffix, THEN before_suffix,
          THEN before_suffix, THEN before_suffix, THEN before_suffix])
  moreover have "list_ex releases_sync ?SY"
    unfolding list_ex_syncObjects_release using fe by (intro bexI [of _ 0]) simp_all
  ultimately have "\<not> list_ex (destroys CommandPool) (?CP @ ?rest)"
    by (rule before_split)
  moreover have "list_ex (destroys CommandPool) ?CP"
    unfolding list_ex_commandPools_release using cp by (intro bexI [of _ 0]) simp_all
  ultimately show False by simp
qed

section \<open>Recreation\<close>

lemma initialize_vkContext: "vkContext (snd (initialize N env s)) = vkContext s"
proof (cases "state s = UNINITIALIZED")
  case False
  then show ?thesis by (simp add: initialize_guard setError_def)
next
  case True
  have "vkContext (snd (run_steps (build_steps N env) s)) = vkContext s"
    using run_build_steps_advances [of s N env] by (simp add: advances_def del: run_steps.simps)
  then show ?thesis using True by (simp add: initialize_run del: run_steps.simps)
qed

lemma ready_pipeline_context: "vkContext ready_pipeline = Some 1"
  by (simp add: ready_pipeline_def initialize_vkContext new_pipeline_def Pipeline_ctor_def)

lemma ready_pipeline_bounded: "slots_bounded 2 ready_pipeline"
  using ready_pipeline_built by (simp add: built_def filled_def slots_bounded_def)

lemma new_pipeline_holds_nothing: "holds_nothing new_pipeline"
  by (simp add: holds_nothing_def new_pipeline_def Pipeline_ctor_def)










lemma new_calls_cleanup_twice: "new_calls (cleanup N s) (cleanup N (cleanup N s)) = waitIdle_calls s"
  by (simp add: new_calls_cleanup cleanup_calls_of_nothing cleanup_fields waitIdle_calls_cleanup)

section \<open>The claims\<close>






text \<open>
  C3, as the claim states it, fails: \<open>endFrame\<close> returns early, before the slot index is
  touched, when the state is not \<open>READY\<close>, when the recording cannot be ended, when the
  submission fails and when presentation fails with a result that is neither success nor
  stale. On a ready two-slot pipeline whose presentation reports \<open>VK_ERROR_DEVICE_LOST\<close>
  the index stays at 0.
\<close>

theorem endFrame_skips_advance_counterexample:
  "\<not> (currentFrame (snd (endFrame 2 (env_with AtQueuePresent VK_ERROR_DEVICE_LOST) ready_pipeline))
        = (currentFrame ready_pipeline + 1) mod 2)"
  using endFrame_summary(1,2) [where s = ready_pipeline and env = "env_with AtQueuePresent VK_ERROR_DEVICE_LOST" and N = 2]
  by (simp add: ready_pipeline_state env_with_result is_stale_def)

text \<open>
  C3, amended. \<open>endFrame\<close> returns success exactly when the state is \<open>READY\<close>, ending the
  recording and the submission succeed, and presentation reports success or a stale
  (out-of-date or suboptimal) surface. Whenever it returns success the slot index goes
  from \<open>i\<close> to \<open>(i + 1) mod N\<close>, in the plain and in the stale case alike; whenever it
  returns failure the slot index is unchanged. (The index is a fixed-width unsigned member;
  for \<open>i < N\<close> the increment cannot wrap.)
\<close>

theorem endFrame_advances_iff_returns_true:
  assumes "currentFrame s < N"
  shows "(fst (endFrame N env s) \<longleftrightarrow>
            state s = READY \<and>
            vkResult env AtEndCommandBuffer = VK_SUCCESS \<and>
            vkResult env AtQueueSubmit = VK_SUCCESS \<and>
            (vkResult env AtQueuePresent = VK_SUCCESS \<or> is_stale (vkResult env AtQueuePresent))) \<and>
         (fst (endFrame N env s) \<longrightarrow>
            currentFrame (snd (endFrame N env s)) = (currentFrame s + 1) mod N) \<and>
         (\<not> fst (endFrame N env s) \<longrightarrow>
            currentFrame (snd (endFrame N env s)) = currentFrame s)"
proof (cases "state s = READY")
  case True
  show ?thesis
    using endFrame_summary(1,2) [OF True, where env = env and N = N] True by auto
next
  case False
  then show ?thesis by (simp add: endFrame_not_ready)
qed

theorem endFrame_advances_witness:
  "currentFrame ready_pipeline < 2 \<and>
   fst (endFrame 2 env_ok ready_pipeline) \<and>
   currentFrame (snd (endFrame 2 env_ok ready_pipeline)) = 1 \<and>
   fst (endFrame 2 (env_with AtQueuePresent VK_SUBOPTIMAL_KHR) ready_pipeline) \<and>
   currentFrame (snd (endFrame 2 (env_with AtQueuePresent VK_SUBOPTIMAL_KHR) ready_pipeline)) = 1 \<and>
   \<not> fst (endFrame 2 (env_with AtQueueSubmit VK_ERROR_DEVICE_LOST) ready_pipeline) \<and>
   currentFrame (snd (endFrame 2 (env_with AtQueueSubmit VK_ERROR_DEVICE_LOST) ready_pipeline)) = 0"
  using endFrame_advances_iff_returns_true [of ready_pipeline 2 env_ok]
    endFrame_advances_iff_returns_true [of ready_pipeline 2 "env_with AtQueuePresent VK_SUBOPTIMAL_KHR"]
    endFrame_advances_iff_returns_true [of ready_pipeline 2 "env_with AtQueueSubmit VK_ERROR_DEVICE_LOST"]
  by (simp add: ready_pipeline_state env_with_result env_ok_succeeds is_stale_def)

text \<open>
  C4. When the state is \<open>READY\<close>, the fence wait at the start returns and image
  acquisition reports \<open>VK_ERROR_OUT_OF_DATE_KHR\<close>, \<open>beginFrame\<close> returns failure with the
  state \<open>RECREATING\<close>. The only calls it made are the fence wait and the acquisition: the
  fence is as the wait observed it (signaled, not reset), no command recorder and no
  semaphore changed status, and no member other than \<open>state\<close> changed.
\<close>

theorem beginFrame_stale_keeps_fence_and_recorder:
  assumes "state s = READY"
    and "fenceStatus (gpu s) (inFlightFences s ! currentFrame s) \<noteq> Unsignaled"
    and "vkResult env AtAcquireNextImage = VK_ERROR_OUT_OF_DATE_KHR"
  shows "\<exists>s'. beginFrame env s = Some (False, s') \<and>
           state s' = RECREATING \<and>
           new_calls s s' =
             [WaitForFences (inFlightFences s ! currentFrame s),
              AcquireNextImage (imageAvailableSemaphores s ! currentFrame s) VK_ERROR_OUT_OF_DATE_KHR] \<and>
           recorder (gpu s') = recorder (gpu s) \<and>
           fenceStatus (gpu s') = (fenceStatus (gpu s))(inFlightFences s ! currentFrame s := Signaled) \<and>
           fenceStatus (gpu s') (inFlightFences s ! currentFrame s) \<noteq> Unsignaled \<and>
           semaphoreSignaled (gpu s') = semaphoreSignaled (gpu s) \<and>
           s' = s\<lparr>gpu := gpu s', state := RECREATING\<rparr>"
  unfolding beginFrame_out_of_date [OF assms] by (simp add: new_calls_def)

theorem beginFrame_stale_witness:
  "state ready_pipeline = READY \<and>
   fenceStatus (gpu ready_pipeline) (inFlightFences ready_pipeline ! currentFrame ready_pipeline) \<noteq> Unsignaled \<and>
   vkResult (env_with AtAcquireNextImage VK_ERROR_OUT_OF_DATE_KHR) AtAcquireNextImage = VK_ERROR_OUT_OF_DATE_KHR \<and>
   (\<exists>s'. beginFrame (env_with AtAcquireNextImage VK_ERROR_OUT_OF_DATE_KHR) ready_pipeline = Some (False, s') \<and>
         state s' = RECREATING \<and>
         recorder (gpu s') = recorder (gpu ready_pipeline) \<and>
         fenceStatus (gpu s') = fenceStatus (gpu ready_pipeline))"
proof -
  have 1: "state ready_pipeline = READY" by (simp add: ready_pipeline_state)
  have 2: "fenceStatus (gpu ready_pipeline) (inFlightFences ready_pipeline ! currentFrame ready_pipeline) \<noteq> Unsignaled"
    by (simp add: ready_pipeline_state ready_pipeline_fences)
  have 3: "vkResult (env_with AtAcquireNextImage VK_ERROR_OUT_OF_DATE_KHR) AtAcquireNextImage = VK_ERROR_OUT_OF_DATE_KHR"
    by (simp add: env_with_result)
  have 4: "(fenceStatus (gpu ready_pipeline))(inFlightFences ready_pipeline ! currentFrame ready_pipeline := Signaled)
           = fenceStatus (gpu ready_pipeline)"
    by (simp add: ready_pipeline_state ready_pipeline_fences fun_upd_idem)
  show ?thesis
    using beginFrame_stale_keeps_fence_and_recorder [OF 1 2 3] 1 2 3 4 by auto
qed



text \<open>
  C6. Calling \<open>beginFrame\<close> or \<open>endFrame\<close> while the state is not \<open>READY\<close>, or
  \<open>initialize\<close> while the state is not \<open>UNINITIALIZED\<close>, returns failure with the usage
  error as last error and changes nothing else: the device is the same, so no call was
  made and no fence or semaphore changed.
\<close>

theorem precondition_violation_is_usage_error:
  "(state s \<noteq> READY \<longrightarrow>
      beginFrame env s = Some (False, s\<lparr>lastError := ''Pipeline is not in ready state''\<rparr>) \<and>
      endFrame N env s = (False, s\<lparr>lastError := ''Pipeline is not in ready state''\<rparr>)) \<and>
   (state s \<noteq> UNINITIALIZED \<longrightarrow>
      initialize N env s = (False, s\<lparr>lastError := ''Pipeline is already initialized''\<rparr>)) \<and>
   gpu (s\<lparr>lastError := msg\<rparr>) = gpu s \<and> new_calls s (s\<lparr>lastError := msg\<rparr>) = []"
  by (simp add: beginFrame_def endFrame_def initialize_def setError_def new_calls_def)

theorem precondition_violation_witness:
  "state new_pipeline \<noteq> READY \<and>
   beginFrame env_ok new_pipeline = Some (False, new_pipeline\<lparr>lastError := ''Pipeline is not in ready state''\<rparr>) \<and>
   endFrame 2 env_ok new_pipeline = (False, new_pipeline\<lparr>lastError := ''Pipeline is not in ready state''\<rparr>) \<and>
   state ready_pipeline \<noteq> UNINITIALIZED \<and>
   initialize 2 env_ok ready_pipeline = (False, ready_pipeline\<lparr>lastError := ''Pipeline is already initialized''\<rparr>)"
  using precondition_violation_is_usage_error [of new_pipeline env_ok 2]
    precondition_violation_is_usage_error [of ready_pipeline env_ok 2]
  by (simp add: new_pipeline_state ready_pipeline_state)

text \<open>
  C7, as the claim states it, fails in one place: the sync objects are not the last of the
  per-frame resources to go. \<open>cleanup\<close> destroys the semaphores and fences before the
  command pools; on the ready two-slot pipeline a command pool is destroyed after a fence.
\<close>

theorem cleanup_sync_not_last_counterexample:
  "\<not> before (destroys CommandPool) releases_sync (new_calls ready_pipeline (cleanup 2 ready_pipeline))"
  unfolding new_calls_cleanup by (rule ready_pipeline_sync_then_pool)

text \<open>
  C7, amended. \<open>cleanup\<close> waits for device idle first (on a valid device) and destroys
  every non-null object held in a member. In its calls the descriptor pool comes before
  the descriptor layout, the framebuffers before the render pass, and of the per-frame
  resources the uniform blocks (unmap, buffer, memory) come first, then the semaphores and
  fences, then the command pools. Afterwards the state is \<open>UNINITIALIZED\<close>, every handle is
  null and every vector empty. \<open>cleanup\<close> is idempotent: on a pipeline that holds nothing,
  newly constructed or already cleaned up, it only waits for device idle.
\<close>

theorem cleanup_order_and_idempotence:
  "(vkContext s = Some d \<and> d \<noteq> VK_NULL_HANDLE \<longrightarrow>
      take 1 (new_calls s (cleanup N s)) = [DeviceWaitIdle]) \<and>
   (slots_bounded N s \<longrightarrow>
      (\<forall>(k, h) \<in> set (owned_objects s). Destroy k h \<in> set (new_calls s (cleanup N s)))) \<and>
   before (destroys DescriptorPool) (destroys DescriptorSetLayout) (new_calls s (cleanup N s)) \<and>
   before (destroys Framebuffer) (destroys RenderPass) (new_calls s (cleanup N s)) \<and>
   before releases_buffer releases_sync (new_calls s (cleanup N s)) \<and>
   before releases_sync (destroys CommandPool) (new_calls s (cleanup N s)) \<and>
   state (cleanup N s) = UNINITIALIZED \<and>
   holds_nothing (cleanup N s) \<and>
   (holds_nothing s \<longrightarrow>
      cleanup N s = (waitIdle s)\<lparr>state := UNINITIALIZED\<rparr> \<and>
      new_calls s (cleanup N s) = waitIdle_calls s) \<and>
   cleanup N (cleanup N s) = waitIdle (cleanup N s) \<and>
   new_calls (cleanup N s) (cleanup N (cleanup N s)) = waitIdle_calls s"
proof (intro conjI impI)
  assume "vkContext s = Some d \<and> d \<noteq> VK_NULL_HANDLE"
  then have "vkContext s = Some d" and "d \<noteq> VK_NULL_HANDLE" by simp_all
  then show "take 1 (new_calls s (cleanup N s)) = [DeviceWaitIdle]"
    unfolding new_calls_cleanup by (rule cleanup_waits_first)
next
  assume "slots_bounded N s"
  then show "\<forall>(k, h) \<in> set (owned_objects s). Destroy k h \<in> set (new_calls s (cleanup N s))"
    unfolding new_calls_cleanup using cleanup_destroys_owned [of N s] by blast
next
  show "before (destroys DescriptorPool) (destroys DescriptorSetLayout) (new_calls s (cleanup N s))"
    unfolding new_calls_cleanup by (rule cleanup_pool_before_layout)
  show "before (destroys Framebuffer) (destroys RenderPass) (new_calls s (cleanup N s))"
    unfolding new_calls_cleanup by (rule cleanup_framebuffers_before_renderPass)
  show "before releases_buffer releases_sync (new_calls s (cleanup N s))"
    unfolding new_calls_cleanup by (rule cleanup_buffers_before_sync)
  show "before releases_sync (destroys CommandPool) (new_calls s (cleanup N s))"
    unfolding new_calls_cleanup by (rule cleanup_sync_before_commandPools)
  show "state (cleanup N s) = UNINITIALIZED" by (rule cleanup_state)
  show "holds_nothing (cleanup N s)" by (rule cleanup_fields(1))
  show "cleanup N (cleanup N s) = waitIdle (cleanup N s)" by (rule cleanup_twice)
  show "new_calls (cleanup N s) (cleanup N (cleanup N s)) = waitIdle_calls s"
    by (rule new_calls_cleanup_twice)
next
  assume "holds_nothing s"
  then show "cleanup N s = (waitIdle s)\<lparr>state := UNINITIALIZED\<rparr>" by (rule cleanup_of_nothing)
next
  assume "holds_nothing s"
  then show "new_calls s (cleanup N s) = waitIdle_calls s"
    unfolding new_calls_cleanup by (rule cleanup_calls_of_nothing)
qed

theorem cleanup_witness:
  "vkContext ready_pipeline = Some 1 \<and>
   take 1 (new_calls ready_pipeline (cleanup 2 ready_pipeline)) = [DeviceWaitIdle] \<and>
   slots_bounded 2 ready_pipeline \<and>
   (Fence, inFlightFences ready_pipeline ! 0) \<in> set (owned_objects ready_pipeline) \<and>
   Destroy Fence (inFlightFences ready_pipeline ! 0) \<in> set (new_calls ready_pipeline (cleanup 2 ready_pipeline)) \<and>
   state (cleanup 2 ready_pipeline) = UNINITIALIZED \<and>
   holds_nothing new_pipeline \<and>
   cleanup 2 new_pipeline = (waitIdle new_pipeline)\<lparr>state := UNINITIALIZED\<rparr> \<and>
   new_calls new_pipeline (cleanup 2 new_pipeline) = [DeviceWaitIdle] \<and>
   new_calls (cleanup 2 ready_pipeline) (cleanup 2 (cleanup 2 ready_pipeline)) = [DeviceWaitIdle]"
proof -
  note T1 = cleanup_order_and_idempotence [where s = ready_pipeline and N = 2 and d = 1]
  note T2 = cleanup_order_and_idempotence [where s = new_pipeline and N = 2 and d = 1]
  have ctx: "vkContext ready_pipeline = Some 1" by (rule ready_pipeline_context)
  have one: "(1::nat) \<noteq> VK_NULL_HANDLE" by simp
  have a: "take 1 (new_calls ready_pipeline (cleanup 2 ready_pipeline)) = [DeviceWaitIdle]"
    using T1 ctx one by blast
  have b: "slots_bounded 2 ready_pipeline" by (rule ready_pipeline_bounded)
  have fe: "filled 2 (inFlightFences ready_pipeline)"
    using ready_pipeline_built by (simp add: built_def)
  have o: "(Fence, inFlightFences ready_pipeline ! 0) \<in> set (owned_objects ready_pipeline)"
    unfolding owned_objects_def set_filter
    using fe filled_nth [OF fe, of 0] by (simp add: filled_def)
  have "\<forall>(k, h) \<in> set (owned_objects ready_pipeline).
           Destroy k h \<in> set (new_calls ready_pipeline (cleanup 2 ready_pipeline))"
    using T1 b by blast
  then have c: "Destroy Fence (inFlightFences ready_pipeline ! 0)
      \<in> set (new_calls ready_pipeline (cleanup 2 ready_pipeline))"
    using o by blast
  have d: "state (cleanup 2 ready_pipeline) = UNINITIALIZED" using T1 by blast
  have n: "holds_nothing new_pipeline" by (rule new_pipeline_holds_nothing)
  have w1: "waitIdle_calls new_pipeline = [DeviceWaitIdle]"
    by (simp add: waitIdle_calls_def new_pipeline_def Pipeline_ctor_def)
  have w2: "waitIdle_calls ready_pipeline = [DeviceWaitIdle]"
    by (simp add: waitIdle_calls_def ready_pipeline_context)
  have e: "cleanup 2 new_pipeline = (waitIdle new_pipeline)\<lparr>state := UNINITIALIZED\<rparr> \<and>
      new_calls new_pipeline (cleanup 2 new_pipeline) = waitIdle_calls new_pipeline"
    using T2 n by blast
  have e1: "cleanup 2 new_pipeline = (waitIdle new_pipeline)\<lparr>state := UNINITIALIZED\<rparr>"
    using e by (rule conjunct1)
  have e2: "new_calls new_pipeline (cleanup 2 new_pipeline) = [DeviceWaitIdle]"
    using e [THEN conjunct2] by (simp only: w1)
  have "new_calls (cleanup 2 ready_pipeline) (cleanup 2 (cleanup 2 ready_pipeline))
      = waitIdle_calls ready_pipeline"
    using T1 by blast
  then have f: "new_calls (cleanup 2 ready_pipeline) (cleanup 2 (cleanup 2 ready_pipeline)) = [DeviceWaitIdle]"
    by (simp only: w2)
  show ?thesis using ctx a b o c d n e1 e2 f by blast
qed





end
